theory Spec2Isabelle
  imports Main
begin

section \<open>Data model\<close>

text \<open>
  A Python \<open>str\<close> is modelled as an Isabelle \<open>string\<close>: a list of code points below 256
  (the Latin-1 range), one \<open>char\<close> per code point, so that \<open>length\<close> is Python's \<open>len\<close>.
  Code points from 256 on are outside the model.

  A \<open>datetime\<close> is its wall-clock reading in microseconds together with the UTC offset of
  its \<open>tzinfo\<close> (\<open>None\<close> for a naive value). \<open>datetime.now(timezone.utc)\<close> at the instant
  \<open>t\<close> is \<open>utc_now t\<close>; \<open>datetime.utcnow()\<close> at the same instant is \<open>utcnow t\<close>.
\<close>

record datetime =
  wall :: int
  tzinfo :: "int option"

definition utc_now :: "int \<Rightarrow> datetime" where
  "utc_now t = \<lparr>wall = t, tzinfo = Some 0\<rparr>"

definition utcnow :: "int \<Rightarrow> datetime" where
  "utcnow t = \<lparr>wall = t, tzinfo = None\<rparr>"

definition utc_instant :: "datetime \<Rightarrow> int" where
  \<comment> \<open>the instant an aware datetime denotes; comparison of aware values compares these\<close>
  "utc_instant d = wall d - (case tzinfo d of None \<Rightarrow> 0 | Some off \<Rightarrow> off)"

text \<open>
  \<open>src/entities/url.py\<close>: the mapped columns of \<open>URLModel\<close>. The fields carry the prefix
  \<open>u_\<close> (a record field is a global constant, and several classes of the source share
  field names). The table has a column \<open>last_checked\<close> and no column \<open>last_accessed\<close>.
  \<open>click_count\<close> is filled by its default 0 on insert, so a row that the service created
  holds an integer there.
\<close>

record URLModel =
  u_id :: int
  u_original_url :: string
  u_short_code :: string
  u_created_at :: datetime
  u_expires_at :: "datetime option"
  u_click_count :: int
  u_last_checked :: "datetime option"

text \<open>
  An instance of \<open>URLModel\<close> loaded into a session: the mapped columns, and the attribute
  \<open>last_accessed\<close> that \<open>redirect_to_url\<close> assigns on the Python object. The class maps no
  column of that name, so the attribute lives on the object only and a commit writes the
  columns of \<open>row\<close>.
\<close>

record url_entry =
  row :: URLModel
  last_accessed :: "datetime option"

text \<open>\<open>src/entities/click.py\<close>: the columns of \<open>ClickModel\<close>, prefix \<open>c_\<close>.\<close>

record ClickModel =
  c_id :: int
  c_url_id :: int
  c_ip_address :: "string option"
  c_user_agent :: "string option"
  c_referer :: "string option"
  c_clicked_at :: datetime

text \<open>\<open>src/schemas/models.py\<close>: the request and response schemas.\<close>

record URLCreate =
  original_url :: string
  custom_alias :: "string option"
  expires_at :: "datetime option"

record URLResponse =
  r_id :: int
  r_original_url :: string
  r_short_code :: string
  r_short_url :: string
  r_created_at :: datetime
  r_expires_at :: "datetime option"
  r_click_count :: int

record ClickResponse =
  cr_id :: int
  cr_ip_address :: "string option"
  cr_user_agent :: "string option"
  cr_referer :: "string option"
  cr_clicked_at :: datetime

record URLStats =
  s_id :: int
  s_original_url :: string
  s_short_code :: string
  s_created_at :: datetime
  s_expires_at :: "datetime option"
  s_click_count :: int
  s_last_accessed :: "datetime option"
  s_recent_clicks :: "ClickResponse list"

text \<open>
  What the handlers read of the incoming request: \<open>request.client\<close> (which the framework
  may leave \<open>None\<close>), the two headers, and \<open>str(request.base_url)\<close>.
\<close>

record request =
  client_host :: "string option"
  header_user_agent :: "string option"
  header_referer :: "string option"
  base_url :: string

text \<open>
  The ways a request fails: an \<open>HTTPException\<close> raised by a handler (status, detail), the
  schema's validation error (the fields it rejects, each with the kind of error), the
  \<open>AttributeError\<close> of \<open>request.client.host\<close> on a missing client, and the store's
  \<open>IntegrityError\<close> on a violated unique constraint.
\<close>

datatype validation_kind = string_too_short | string_too_long | value_error

datatype error =
    HTTPException nat string
  | RequestValidationError "(string \<times> validation_kind) list"
  | AttributeError
  | IntegrityError

record RedirectResponse =
  location :: string
  status_code :: nat

section \<open>The persistence store\<close>

text \<open>
  Modelled from the spec: \<open>src/database/core.py\<close> (engine, session, \<open>Base\<close>) is not among
  the sources. The store is the two tables of section 3 of the specification, in insertion
  order, with the constraints the entity classes declare: the primary keys, the unique
  index on \<open>short_code\<close>, the foreign key from a click to its URL with cascading delete.
  A new row's identity is assigned by the store, one above the largest identity of the
  table. The store also keeps a log of the statements it was sent, so that "no store
  access" can be stated.
\<close>

datatype db_op =
    SelectURL string
  | SelectClicks int
  | SelectPage nat nat
  | InsertURL string
  | UpdateURL int
  | InsertClick int
  | DeleteURL int

record database =
  urls :: "URLModel list"
  clicks :: "ClickModel list"
  log :: "db_op list"

definition new_id :: "int list \<Rightarrow> int" where
  "new_id ids = fold max ids 0 + 1"

definition query_url_first :: "string \<Rightarrow> database \<Rightarrow> URLModel option \<times> database" where
  \<comment> \<open>\<open>db.query(URLModel).filter(URLModel.short_code == code).first()\<close>\<close>
  "query_url_first code db =
     (find (\<lambda>u. u_short_code u = code) (urls db), db\<lparr>log := log db @ [SelectURL code]\<rparr>)"

definition query_recent_clicks :: "int \<Rightarrow> nat \<Rightarrow> database \<Rightarrow> ClickModel list \<times> database" where
  \<comment> \<open>\<open>db.query(ClickModel).filter(ClickModel.url_id == uid)
        .order_by(ClickModel.clicked_at.desc()).limit(n).all()\<close>;
      the column holds the wall-clock reading\<close>
  "query_recent_clicks uid n db =
     (take n (sort_key (\<lambda>c. - wall (c_clicked_at c)) (filter (\<lambda>c. c_url_id c = uid) (clicks db))),
      db\<lparr>log := log db @ [SelectClicks uid]\<rparr>)"

definition query_urls_page :: "nat \<Rightarrow> nat \<Rightarrow> database \<Rightarrow> URLModel list \<times> database" where
  \<comment> \<open>\<open>db.query(URLModel).offset(skip).limit(limit).all()\<close>\<close>
  "query_urls_page skip limit db =
     (take limit (drop skip (urls db)), db\<lparr>log := log db @ [SelectPage skip limit]\<rparr>)"

definition insert_url :: "string \<Rightarrow> string \<Rightarrow> datetime option \<Rightarrow> int \<Rightarrow> database
    \<Rightarrow> (error + URLModel) \<times> database" where
  \<comment> \<open>\<open>db.add(db_url); db.commit(); db.refresh(db_url)\<close>: the column defaults are applied
      (\<open>created_at\<close> now, \<open>click_count\<close> 0, \<open>last_checked\<close> NULL); the unique index on
      \<open>short_code\<close> refuses a duplicate\<close>
  "insert_url url code expires now db =
     (let db1 = db\<lparr>log := log db @ [InsertURL code]\<rparr> in
      if code \<in> set (map u_short_code (urls db)) then (Inl IntegrityError, db1)
      else
        let u = \<lparr>u_id = new_id (map u_id (urls db)), u_original_url = url, u_short_code = code,
                 u_created_at = utc_now now, u_expires_at = expires, u_click_count = 0,
                 u_last_checked = None\<rparr>
        in (Inr u, db1\<lparr>urls := urls db @ [u]\<rparr>))"

definition update_url :: "URLModel \<Rightarrow> database \<Rightarrow> database" where
  \<comment> \<open>the UPDATE a commit sends for a modified instance, keyed by the primary key\<close>
  "update_url u db =
     db\<lparr>urls := map (\<lambda>v. if u_id v = u_id u then u else v) (urls db),
        log := log db @ [UpdateURL (u_id u)]\<rparr>"

definition insert_click :: "int \<Rightarrow> string option \<Rightarrow> string option \<Rightarrow> string option \<Rightarrow> int
    \<Rightarrow> database \<Rightarrow> database" where
  \<comment> \<open>the INSERT a commit sends for a pending click; \<open>clicked_at\<close> defaults to
      \<open>datetime.utcnow()\<close>\<close>
  "insert_click uid ip ua ref now db =
     db\<lparr>clicks := clicks db @
          [\<lparr>c_id = new_id (map c_id (clicks db)), c_url_id = uid, c_ip_address = ip,
            c_user_agent = ua, c_referer = ref, c_clicked_at = utcnow now\<rparr>],
        log := log db @ [InsertClick uid]\<rparr>"

definition delete_url_row :: "URLModel \<Rightarrow> database \<Rightarrow> database" where
  \<comment> \<open>\<open>db.delete(url_entry); db.commit()\<close>: the row goes, and with it (cascade
      \<open>all, delete-orphan\<close>; \<open>ondelete="CASCADE"\<close>) the clicks that reference it\<close>
  "delete_url_row u db =
     db\<lparr>urls := filter (\<lambda>v. u_id v \<noteq> u_id u) (urls db),
        clicks := filter (\<lambda>c. c_url_id c \<noteq> u_id u) (clicks db),
        log := log db @ [DeleteURL (u_id u)]\<rparr>"

definition store_ok :: "database \<Rightarrow> bool" where
  \<comment> \<open>the constraints of the two tables\<close>
  "store_ok db \<longleftrightarrow>
     distinct (map u_id (urls db)) \<and>
     distinct (map u_short_code (urls db)) \<and>
     distinct (map c_id (clicks db)) \<and>
     list_all (\<lambda>c. c_url_id c \<in> set (map u_id (urls db))) (clicks db)"

section \<open>The redirect handler\<close>

definition is_expired :: "datetime \<Rightarrow> int \<Rightarrow> bool" where
  \<comment> \<open>lines 98 to 104 of \<open>main.py\<close>: a naive \<open>expires_at\<close> is read as UTC\<close>
  "is_expired expires t =
     (let now = utc_now t;
          expires' = (if tzinfo expires = None then expires\<lparr>tzinfo := Some 0\<rparr> else expires)
      in utc_instant expires' < utc_instant now)"

text \<open>
  \<open>redirect_to_url\<close> reads the clock three times: \<open>t_check\<close> at the expiry test,
  \<open>t_access\<close> at the assignment of \<open>last_accessed\<close>, \<open>t_flush\<close> when the commit inserts
  the click. The function returns the response or the error, the store, and (on success)
  the Python object \<open>url_entry\<close> as the handler leaves it.
\<close>

definition redirect_to_url :: "string \<Rightarrow> request \<Rightarrow> int \<Rightarrow> int \<Rightarrow> int \<Rightarrow> database
    \<Rightarrow> (error + RedirectResponse \<times> url_entry) \<times> database" where
  "redirect_to_url short_code req t_check t_access t_flush db =
     (case query_url_first short_code db of
        (None, db1) \<Rightarrow> (Inl (HTTPException 404 ''Short URL not found''), db1)
      | (Some u, db1) \<Rightarrow>
          if (case u_expires_at u of None \<Rightarrow> False | Some expires \<Rightarrow> is_expired expires t_check)
          then (Inl (HTTPException 410 ''Short URL has expired''), db1)
          else
            (case client_host req of
               None \<Rightarrow> (Inl AttributeError, db1)
             | Some host \<Rightarrow>
                 let user_agent = (case header_user_agent req of None \<Rightarrow> ''Unknown'' | Some a \<Rightarrow> a);
                     entry = \<lparr>row = u\<lparr>u_click_count := u_click_count u + 1\<rparr>,
                              last_accessed = Some (utc_now t_access)\<rparr>;
                     db2 = insert_click (u_id u) (Some host) (Some user_agent) (header_referer req)
                             t_flush (update_url (row entry) db1)
                 in (Inr (\<lparr>location = u_original_url (row entry), status_code = 307\<rparr>, entry), db2)))"

section \<open>The statistics handler\<close>

definition click_response :: "ClickModel \<Rightarrow> ClickResponse" where
  "click_response click =
     \<lparr>cr_id = c_id click, cr_ip_address = c_ip_address click, cr_user_agent = c_user_agent click,
      cr_referer = c_referer click, cr_clicked_at = c_clicked_at click\<rparr>"

definition get_url_stats :: "string \<Rightarrow> database \<Rightarrow> (error + URLStats) \<times> database" where
  "get_url_stats short_code db =
     (case query_url_first short_code db of
        (None, db1) \<Rightarrow> (Inl (HTTPException 404 ''Short URL not found''), db1)
      | (Some u, db1) \<Rightarrow>
          (case query_recent_clicks (u_id u) 10 db1 of
             (recent_clicks, db2) \<Rightarrow>
               (Inr \<lparr>s_id = u_id u, s_original_url = u_original_url u,
                     s_short_code = u_short_code u, s_created_at = u_created_at u,
                     s_expires_at = u_expires_at u, s_click_count = u_click_count u,
                     s_last_accessed = u_last_checked u,
                     s_recent_clicks = map click_response recent_clicks\<rparr>, db2)))"

section \<open>Listing and deletion\<close>

text \<open>
  \<open>skip\<close> and \<open>limit\<close> are natural numbers here: what a negative offset or limit does is
  left to the database behind the store.
\<close>

definition list_urls :: "nat \<Rightarrow> nat \<Rightarrow> database \<Rightarrow> URLResponse list \<times> database" where
  "list_urls skip limit db =
     (case query_urls_page skip limit db of
        (rows, db1) \<Rightarrow>
          (map (\<lambda>url. \<lparr>r_id = u_id url, r_original_url = u_original_url url,
                        r_short_code = u_short_code url, r_short_url = ''/'' @ u_short_code url,
                        r_created_at = u_created_at url, r_expires_at = u_expires_at url,
                        r_click_count = u_click_count url\<rparr>) rows, db1))"

definition delete_url :: "string \<Rightarrow> database \<Rightarrow> (error + nat) \<times> database" where
  \<comment> \<open>on success the handler answers with the bare status 204\<close>
  "delete_url short_code db =
     (case query_url_first short_code db of
        (None, db1) \<Rightarrow> (Inl (HTTPException 404 ''Short URL not found''), db1)
      | (Some u, db1) \<Rightarrow> (Inr 204, delete_url_row u db1))"

section \<open>Short codes\<close>

text \<open>
  \<open>src/utils.py\<close>. \<open>string.ascii_letters + string.digits\<close> is the alphabet of 62
  characters. \<open>random.choices(population, k=length)\<close> returns, \<open>length\<close> times,
  \<open>population[floor(random() * n)]\<close> with \<open>n = len(population)\<close> and \<open>random()\<close> in
  \<open>[0, 1)\<close>, so an index below \<open>n\<close>; for a negative \<open>k\<close> it returns the empty list. The
  random source is not part of the repository: the model takes it as a parameter, a
  sequence \<open>g\<close> of natural numbers whose values are read modulo \<open>n\<close>, and returns the rest
  of the sequence.
\<close>

type_synonym rng = "nat \<Rightarrow> nat"

definition ascii_lowercase :: string where
  "ascii_lowercase = ''abcdefghijklmnopqrstuvwxyz''"

definition ascii_uppercase :: string where
  "ascii_uppercase = ''ABCDEFGHIJKLMNOPQRSTUVWXYZ''"

definition ascii_letters :: string where
  "ascii_letters = ascii_lowercase @ ascii_uppercase"

definition digits :: string where
  "digits = ''0123456789''"

definition characters :: string where
  "characters = ascii_letters @ digits"

definition generate_short_code :: "int \<Rightarrow> rng \<Rightarrow> string \<times> rng" where
  "generate_short_code len g =
     (map (\<lambda>i. characters ! (g i mod length characters)) [0..<nat len], \<lambda>i. g (i + nat len))"

section \<open>URL validation\<close>

subsection \<open>Regular expressions\<close>

text \<open>
  The fragment of Python's \<open>re\<close> that \<open>url_pattern\<close> is written in: character classes,
  concatenation, alternation, repetition. \<open>ends r s\<close> lists the remainders of \<open>s\<close> after
  each way \<open>r\<close> can match a prefix of \<open>s\<close>, in the order in which a backtracking matcher
  tries them (a repetition first tries one more round, and a round that consumes nothing
  is not repeated). \<open>re_match\<close> is \<open>pattern.match(s) is not None\<close> for a pattern that ends
  in \<open>$\<close>: without \<open>re.MULTILINE\<close>, \<open>$\<close> matches at the end of the string and also just
  before a line feed that is the last character of the string.
\<close>

datatype rx =
    Eps
  | Sym "char \<Rightarrow> bool"
  | Alt rx rx
  | Seq rx rx
  | Star rx

fun star_ends :: "(string \<Rightarrow> string list) \<Rightarrow> nat \<Rightarrow> string \<Rightarrow> string list" where
  "star_ends f 0 s = [s]"
| "star_ends f (Suc n) s =
     concat (map (star_ends f n) (filter (\<lambda>t. length t < length s) (f s))) @ [s]"

primrec ends :: "rx \<Rightarrow> string \<Rightarrow> string list" where
  "ends Eps = (\<lambda>s. [s])"
| "ends (Sym p) = (\<lambda>s. case s of [] \<Rightarrow> [] | c # cs \<Rightarrow> if p c then [cs] else [])"
| "ends (Alt a b) = (\<lambda>s. ends a s @ ends b s)"
| "ends (Seq a b) = (\<lambda>s. concat (map (ends b) (ends a s)))"
| "ends (Star a) = (\<lambda>s. star_ends (ends a) (length s) s)"

definition re_match :: "rx \<Rightarrow> string \<Rightarrow> bool" where
  "re_match r s = list_ex (\<lambda>t. t = [] \<or> t = [CHR 0x0A]) (ends r s)"

definition Opt :: "rx \<Rightarrow> rx" where
  \<comment> \<open>\<open>r?\<close>\<close>
  "Opt r = Alt r Eps"

definition Plus :: "rx \<Rightarrow> rx" where
  \<comment> \<open>\<open>r+\<close>\<close>
  "Plus r = Seq r (Star r)"

primrec Upto :: "nat \<Rightarrow> rx \<Rightarrow> rx" where
  \<comment> \<open>\<open>r{0,n}\<close>\<close>
  "Upto 0 r = Eps"
| "Upto (Suc n) r = Opt (Seq r (Upto n r))"

primrec Times :: "nat \<Rightarrow> rx \<Rightarrow> rx" where
  \<comment> \<open>\<open>r{n}\<close>\<close>
  "Times 0 r = Eps"
| "Times (Suc n) r = Seq r (Times n r)"

definition Rep :: "nat \<Rightarrow> nat \<Rightarrow> rx \<Rightarrow> rx" where
  \<comment> \<open>\<open>r{m,n}\<close>\<close>
  "Rep m n r = Seq (Times m r) (Upto (n - m) r)"

definition Seqs :: "rx list \<Rightarrow> rx" where
  "Seqs rs = foldr Seq rs Eps"

text \<open>
  The character classes of the pattern under \<open>re.IGNORECASE\<close>, on the code points below
  256: a letter of the pattern matches in both cases, \<open>\d\<close> is a decimal digit and \<open>\S\<close> is
  any character that is not white space (\<open>str.isspace\<close>).
\<close>

definition is_letter :: "char \<Rightarrow> bool" where
  \<comment> \<open>\<open>[A-Z]\<close>, ignoring case\<close>
  "is_letter c \<longleftrightarrow> c \<in> set ascii_letters"

definition is_digit :: "char \<Rightarrow> bool" where
  \<comment> \<open>\<open>\d\<close>\<close>
  "is_digit c \<longleftrightarrow> c \<in> set digits"

definition is_space :: "char \<Rightarrow> bool" where
  \<comment> \<open>\<open>\s\<close>: the white space below 256\<close>
  "is_space c \<longleftrightarrow>
     c \<in> set [CHR 0x09, CHR 0x0A, CHR 0x0B, CHR 0x0C, CHR 0x0D, CHR 0x1C, CHR 0x1D, CHR 0x1E,
               CHR 0x1F, CHR 0x20, CHR 0x85, CHR 0xA0]"

definition Chr :: "char \<Rightarrow> rx" where
  \<comment> \<open>a character that is not a letter, matched as it is\<close>
  "Chr c = Sym (\<lambda>x. x = c)"

definition swapcase :: "char \<Rightarrow> char" where
  "swapcase c =
     (case List.find (\<lambda>(a, b). a = c) (zip (ascii_lowercase @ ascii_uppercase)
                                           (ascii_uppercase @ ascii_lowercase)) of
        None \<Rightarrow> c
      | Some (a, b) \<Rightarrow> b)"

definition Lit :: "string \<Rightarrow> rx" where
  \<comment> \<open>a literal, each letter in either case\<close>
  "Lit s = Seqs (map (\<lambda>c. Sym (\<lambda>x. x = c \<or> x = swapcase c)) s)"

definition label :: rx where
  \<comment> \<open>\<open>[A-Z0-9](?:[A-Z0-9-]{0,61}[A-Z0-9])?\<close>\<close>
  "label =
     Seq (Sym (\<lambda>c. is_letter c \<or> is_digit c))
         (Opt (Seq (Rep 0 61 (Sym (\<lambda>c. is_letter c \<or> is_digit c \<or> c = CHR ''-'')))
                   (Sym (\<lambda>c. is_letter c \<or> is_digit c))))"

definition domain :: rx where
  \<comment> \<open>\<open>(?:label\.)+[A-Z]{2,6}\.?\<close>\<close>
  "domain = Seqs [Plus (Seq label (Chr CHR ''.'')), Rep 2 6 (Sym is_letter), Opt (Chr CHR ''.'')]"

definition ipv4 :: rx where
  \<comment> \<open>\<open>\d{1,3}\.\d{1,3}\.\d{1,3}\.\d{1,3}\<close>\<close>
  "ipv4 =
     Seqs [Rep 1 3 (Sym is_digit), Chr CHR ''.'', Rep 1 3 (Sym is_digit), Chr CHR ''.'',
           Rep 1 3 (Sym is_digit), Chr CHR ''.'', Rep 1 3 (Sym is_digit)]"

definition url_pattern :: rx where
  "url_pattern =
     Seqs [Lit ''http'', Opt (Lit ''s''), Lit ''://'',
           Alt domain (Alt (Lit ''localhost'') ipv4),
           Opt (Seq (Chr CHR '':'') (Plus (Sym is_digit))),
           Alt (Opt (Chr CHR ''/''))
               (Seq (Sym (\<lambda>c. c = CHR ''/'' \<or> c = CHR ''?'')) (Plus (Sym (\<lambda>c. \<not> is_space c))))]"

subsection \<open>Structural parsing\<close>

text \<open>
  Modelled from the spec: \<open>urllib.parse.urlparse\<close> belongs to Python's standard library,
  not to the repository. Section 4.2 of the specification names what \<open>is_valid_url\<close> needs
  of it: the scheme and the host component (\<open>netloc\<close>) of the URL, and whether parsing
  fails. The model follows the library's split of \<open>scheme://netloc/path?query#fragment\<close>:
  leading control characters and spaces are stripped, tab, carriage return and line feed
  are removed, the scheme is the text before the first colon if it starts with a letter
  and consists of scheme characters, \<open>netloc\<close> is what follows \<open>//\<close> up to the first of
  \<open>/\<close>, \<open>?\<close>, \<open>#\<close>, and a \<open>netloc\<close> with one square bracket but not the other raises
  \<open>ValueError\<close> (\<open>None\<close> here).
\<close>

definition scheme_chars :: string where
  "scheme_chars = ascii_letters @ digits @ ''+-.''"

definition ascii_lower :: "string \<Rightarrow> string" where
  "ascii_lower s = map (\<lambda>c. if c \<in> set ascii_uppercase then swapcase c else c) s"

definition urlparse :: "string \<Rightarrow> (string \<times> string) option" where
  "urlparse url =
     (let url1 = dropWhile (\<lambda>c. (of_char c :: nat) \<le> 32) url;
          url2 = filter (\<lambda>c. c \<notin> set [CHR 0x09, CHR 0x0D, CHR 0x0A]) url1;
          pre = takeWhile (\<lambda>c. c \<noteq> CHR '':'') url2;
          has_scheme = (length pre < length url2 \<and> pre \<noteq> [] \<and> hd pre \<in> set ascii_letters \<and>
                        list_all (\<lambda>c. c \<in> set scheme_chars) pre);
          scheme = (if has_scheme then ascii_lower pre else []);
          url3 = (if has_scheme then drop (length pre + 1) url2 else url2)
      in if take 2 url3 = ''//'' then
           let netloc = takeWhile (\<lambda>c. c \<notin> set ''/?#'') (drop 2 url3)
           in if (CHR ''['' \<in> set netloc) \<noteq> (CHR '']'' \<in> set netloc) then None
              else Some (scheme, netloc)
         else Some (scheme, []))"

subsection \<open>The validator\<close>

definition is_valid_url :: "string \<Rightarrow> bool" where
  "is_valid_url url =
     (if \<not> re_match url_pattern url then False
      else case urlparse url of
             None \<Rightarrow> False
           | Some (scheme, netloc) \<Rightarrow> scheme \<noteq> [] \<and> netloc \<noteq> [])"

section \<open>The request schema\<close>

text \<open>
  \<open>src/schemas/models.py\<close>, \<open>URLCreate\<close>. \<open>str.isalnum\<close> on the code points below 256: the
  ASCII letters and digits, and the letters, digits and numeric characters of the
  Latin-1 supplement. The framework validates the request body against the schema before
  it calls the handler: each string field against its length bounds, then (for a value
  that passed them) the field validator; the errors of all fields are reported together.
\<close>

definition isalnum :: "char \<Rightarrow> bool" where
  "isalnum c \<longleftrightarrow>
     c \<in> set ascii_letters \<or> c \<in> set digits \<or>
     (let n = (of_char c :: nat)
      in n \<in> set [0xAA, 0xB2, 0xB3, 0xB5, 0xB9, 0xBA, 0xBC, 0xBD, 0xBE] \<or>
         (0xC0 \<le> n \<and> n \<le> 0xD6) \<or> (0xD8 \<le> n \<and> n \<le> 0xF6) \<or> 0xF8 \<le> n)"

definition validate_custom_alias :: "string option \<Rightarrow> validation_kind + string option" where
  "validate_custom_alias v =
     (case v of
        None \<Rightarrow> Inr v
      | Some a \<Rightarrow>
          if \<not> list_all (\<lambda>c. isalnum c \<or> c \<in> set ''-_'') a then Inl value_error else Inr v)"

definition check_length :: "nat \<Rightarrow> nat \<Rightarrow> string \<Rightarrow> validation_kind option" where
  \<comment> \<open>\<open>Field(min_length=lo, max_length=hi)\<close>\<close>
  "check_length lo hi s =
     (if length s < lo then Some string_too_short
      else if length s > hi then Some string_too_long
      else None)"

definition URLCreate_validate :: "URLCreate \<Rightarrow> error + URLCreate" where
  "URLCreate_validate data =
     (let e1 = (case check_length 1 2048 (original_url data) of
                  Some k \<Rightarrow> [(''original_url'', k)]
                | None \<Rightarrow> []);
          e2 = (case custom_alias data of
                  None \<Rightarrow> []
                | Some a \<Rightarrow>
                    (case check_length 3 20 a of
                       Some k \<Rightarrow> [(''custom_alias'', k)]
                     | None \<Rightarrow>
                         (case validate_custom_alias (Some a) of
                            Inl k \<Rightarrow> [(''custom_alias'', k)]
                          | Inr _ \<Rightarrow> [])))
      in if e1 @ e2 = [] then Inr data else Inl (RequestValidationError (e1 @ e2)))"

section \<open>The shortening handler\<close>

text \<open>
  Lines 50 to 57 of \<open>main.py\<close>: the \<open>for\<close> loop over \<open>range(max_attempts)\<close> with its
  \<open>else\<close> branch. \<open>generate_unique n\<close> is the loop with \<open>n\<close> rounds left; \<open>None\<close> is the
  loop running to its end without \<open>break\<close>.
\<close>

fun generate_unique :: "nat \<Rightarrow> rng \<Rightarrow> database \<Rightarrow> string option \<times> rng \<times> database" where
  "generate_unique 0 g db = (None, g, db)"
| "generate_unique (Suc n) g db =
     (case generate_short_code 6 g of
        (short_code, g1) \<Rightarrow>
          (case query_url_first short_code db of
             (None, db1) \<Rightarrow> (Some short_code, g1, db1)
           | (Some existing, db1) \<Rightarrow> generate_unique n g1 db1))"

definition rstrip :: "char \<Rightarrow> string \<Rightarrow> string" where
  \<comment> \<open>\<open>s.rstrip(c)\<close> for a single character \<open>c\<close>\<close>
  "rstrip c s = rev (dropWhile (\<lambda>x. x = c) (rev s))"

definition choose_short_code :: "URLCreate \<Rightarrow> rng \<Rightarrow> database \<Rightarrow> (error + string) \<times> rng \<times> database" where
  \<comment> \<open>lines 34 to 57: \<open>if url_data.custom_alias:\<close> holds for a non-empty alias\<close>
  "choose_short_code url_data g db =
     (if custom_alias url_data \<noteq> None \<and> custom_alias url_data \<noteq> Some [] then
        let alias = the (custom_alias url_data) in
        if length alias < 3 \<or> length alias > 20 then
          (Inl (HTTPException 400 ''Custom alias must be between 3 and 20 characters''), g, db)
        else
          (case query_url_first alias db of
             (Some existing, db1) \<Rightarrow> (Inl (HTTPException 409 ''Custom alias already exists''), g, db1)
           | (None, db1) \<Rightarrow> (Inr alias, g, db1))
      else
        (case generate_unique 10 g db of
           (None, g1, db1) \<Rightarrow>
             (Inl (HTTPException 500 ''Failed to generate unique short code''), g1, db1)
         | (Some short_code, g1, db1) \<Rightarrow> (Inr short_code, g1, db1)))"

definition create_short_url :: "URLCreate \<Rightarrow> request \<Rightarrow> int \<Rightarrow> rng \<Rightarrow> database
    \<Rightarrow> (error + URLResponse) \<times> rng \<times> database" where
  "create_short_url url_data req now g db =
     (if \<not> is_valid_url (original_url url_data) then
        (Inl (HTTPException 400 ''Invalid URL format''), g, db)
      else
        (case choose_short_code url_data g db of
           (Inl e, g1, db1) \<Rightarrow> (Inl e, g1, db1)
         | (Inr short_code, g1, db1) \<Rightarrow>
             (case insert_url (original_url url_data) short_code (expires_at url_data) now db1 of
                (Inl e, db2) \<Rightarrow> (Inl e, g1, db2)
              | (Inr db_url, db2) \<Rightarrow>
                  (Inr \<lparr>r_id = u_id db_url, r_original_url = u_original_url db_url,
                        r_short_code = u_short_code db_url,
                        r_short_url = rstrip CHR ''/'' (base_url req) @ ''/'' @ short_code,
                        r_created_at = u_created_at db_url, r_expires_at = u_expires_at db_url,
                        r_click_count = u_click_count db_url\<rparr>, g1, db2))))"

definition post_shorten :: "URLCreate \<Rightarrow> request \<Rightarrow> int \<Rightarrow> rng \<Rightarrow> database
    \<Rightarrow> (error + URLResponse) \<times> rng \<times> database" where
  \<comment> \<open>\<open>POST /api/v1/shorten\<close>: the body is validated against \<open>URLCreate\<close>, then the handler
      runs\<close>
  "post_shorten body req now g db =
     (case URLCreate_validate body of
        Inl e \<Rightarrow> (Inl e, g, db)
      | Inr url_data \<Rightarrow> create_short_url url_data req now g db)"

section \<open>An example store\<close>

text \<open>
  A store with two URL records, used to instantiate the theorems below: \<open>abc\<close> never
  expires, \<open>old\<close> expired at the (naive, hence UTC) reading 70.
\<close>

definition example_db :: database where
  "example_db =
     \<lparr>urls = [\<lparr>u_id = 1, u_original_url = ''https://example.com/a'', u_short_code = ''abc'',
               u_created_at = utc_now 50, u_expires_at = None, u_click_count = 0,
               u_last_checked = None\<rparr>,
              \<lparr>u_id = 2, u_original_url = ''http://localhost:8000/old'', u_short_code = ''old'',
               u_created_at = utc_now 60, u_expires_at = Some \<lparr>wall = 70, tzinfo = None\<rparr>,
               u_click_count = 0, u_last_checked = None\<rparr>],
      clicks = [], log = []\<rparr>"

definition example_request :: request where
  "example_request =
     \<lparr>client_host = Some ''10.0.0.7'', header_user_agent = None, header_referer = None,
      base_url = ''http://short.example/''\<rparr>"

section \<open>Sequences of redirects\<close>

text \<open>
  \<open>resolve_many code calls\<close> sends the redirects of \<open>calls\<close> for \<open>code\<close> one after the other,
  each with its request and its three readings of the clock, and collects the outcomes.
  \<open>not_expired u t\<close>: the record \<open>u\<close> has no \<open>expires_at\<close>, or one that is not before the
  reading \<open>t\<close> (a naive value read as UTC).
\<close>

fun resolve_many :: "string \<Rightarrow> (request \<times> int \<times> int \<times> int) list \<Rightarrow> database
    \<Rightarrow> (error + RedirectResponse \<times> url_entry) list \<times> database" where
  "resolve_many code [] db = ([], db)"
| "resolve_many code ((req, t1, t2, t3) # calls) db =
     (case redirect_to_url code req t1 t2 t3 db of
        (r, db1) \<Rightarrow> (case resolve_many code calls db1 of (rs, db2) \<Rightarrow> (r # rs, db2)))"

definition not_expired :: "URLModel \<Rightarrow> int \<Rightarrow> bool" where
  "not_expired u t =
     (case u_expires_at u of
        None \<Rightarrow> True
      | Some e \<Rightarrow> t \<le> wall e - (case tzinfo e of None \<Rightarrow> 0 | Some off \<Rightarrow> off))"

definition owned_clicks :: "int \<Rightarrow> database \<Rightarrow> ClickModel list" where
  \<comment> \<open>the click records that reference the URL record with identity \<open>uid\<close>\<close>
  "owned_clicks uid db = filter (\<lambda>c. c_url_id c = uid) (clicks db)"

section \<open>Further notions for the statements\<close>

text \<open>
  \<open>newest_first\<close>: a list of click responses is ordered by \<open>clicked_at\<close>, latest first.
  \<open>example_clicked_db\<close>: the example store with four clicks, three of them owned by the
  record \<open>abc\<close>.
\<close>

definition newest_first :: "ClickResponse list \<Rightarrow> bool" where
  "newest_first cs = sorted_wrt (\<lambda>a b. wall (cr_clicked_at b) \<le> wall (cr_clicked_at a)) cs"

definition example_clicked_db :: database where
  "example_clicked_db =
     example_db\<lparr>clicks :=
       [\<lparr>c_id = 1, c_url_id = 1, c_ip_address = Some ''10.0.0.7'', c_user_agent = Some ''Unknown'',
         c_referer = None, c_clicked_at = utcnow 300\<rparr>,
        \<lparr>c_id = 2, c_url_id = 1, c_ip_address = Some ''10.0.0.8'', c_user_agent = Some ''Unknown'',
         c_referer = None, c_clicked_at = utcnow 500\<rparr>,
        \<lparr>c_id = 3, c_url_id = 2, c_ip_address = Some ''10.0.0.9'', c_user_agent = Some ''Unknown'',
         c_referer = None, c_clicked_at = utcnow 450\<rparr>,
        \<lparr>c_id = 4, c_url_id = 1, c_ip_address = None, c_user_agent = Some ''Unknown'',
         c_referer = None, c_clicked_at = utcnow 400\<rparr>]\<rparr>"

section \<open>Candidate codes\<close>

text \<open>
  \<open>candidates n g\<close>: the codes that \<open>n\<close> successive calls of \<open>generate_short_code()\<close>
  return from the random source \<open>g\<close>. \<open>stored_codes\<close>: the codes of the records of the
  store. \<open>checked_candidates\<close>: the candidates up to and including the first one that no
  record carries (all of them if there is none). \<open>example_body\<close> is a request body
  without alias; \<open>crowded_db\<close> is a store whose one record carries the code \<open>aaaaaa\<close>.
\<close>

fun candidates :: "nat \<Rightarrow> rng \<Rightarrow> string list" where
  "candidates 0 g = []"
| "candidates (Suc n) g = (case generate_short_code 6 g of (c, g1) \<Rightarrow> c # candidates n g1)"

definition stored_codes :: "database \<Rightarrow> string set" where
  "stored_codes db = set (map u_short_code (urls db))"

definition checked_candidates :: "string list \<Rightarrow> database \<Rightarrow> string list" where
  "checked_candidates cands db =
     takeWhile (\<lambda>c. c \<in> stored_codes db) cands @
     take 1 (dropWhile (\<lambda>c. c \<in> stored_codes db) cands)"

definition example_body :: URLCreate where
  "example_body = \<lparr>original_url = ''https://example.com/a'', custom_alias = None, expires_at = None\<rparr>"

definition crowded_db :: database where
  "crowded_db =
     \<lparr>urls = [\<lparr>u_id = 1, u_original_url = ''https://example.com/a'', u_short_code = ''aaaaaa'',
               u_created_at = utc_now 50, u_expires_at = None, u_click_count = 0,
               u_last_checked = None\<rparr>],
      clicks = [], log = []\<rparr>"

section \<open>The language of a regular expression\<close>

text \<open>
  What a pattern denotes: \<open>lang r\<close> is the set of the strings that \<open>r\<close> matches from
  their first to their last character. A string matches a pattern written between \<open>^\<close>
  and \<open>$\<close>, in the sense of the pattern's description, when it is in this set.
\<close>

definition conc :: "string set \<Rightarrow> string set \<Rightarrow> string set" where
  "conc A B = {xs @ ys | xs ys. xs \<in> A \<and> ys \<in> B}"

inductive_set star :: "string set \<Rightarrow> string set" for A :: "string set" where
  star_empty: "[] \<in> star A"
| star_more: "u \<in> A \<Longrightarrow> v \<in> star A \<Longrightarrow> u @ v \<in> star A"

primrec lang :: "rx \<Rightarrow> string set" where
  "lang Eps = {[]}"
| "lang (Sym p) = {[c] | c. p c}"
| "lang (Alt a b) = lang a \<union> lang b"
| "lang (Seq a b) = conc (lang a) (lang b)"
| "lang (Star a) = star (lang a)"

section \<open>Letters, digits and other numeric characters\<close>

text \<open>
  The character classes that the description of a valid alias names, on the code points
  below 256: a letter (\<open>str.isalpha\<close>), a digit (\<open>str.isdigit\<close>, the ten decimal digits
  and the superscripts one, two and three), and the numeric characters that are neither
  (the vulgar fractions one quarter, one half and three quarters, U+00BC to U+00BE).
\<close>

definition str_isalpha :: "char \<Rightarrow> bool" where
  "str_isalpha c \<longleftrightarrow>
     c \<in> set ascii_letters \<or>
     (let n = (of_char c :: nat)
      in n \<in> set [0xAA, 0xB5, 0xBA] \<or>
         (0xC0 \<le> n \<and> n \<le> 0xD6) \<or> (0xD8 \<le> n \<and> n \<le> 0xF6) \<or> 0xF8 \<le> n)"

definition str_isdigit :: "char \<Rightarrow> bool" where
  "str_isdigit c \<longleftrightarrow> c \<in> set digits \<or> (of_char c :: nat) \<in> set [0xB2, 0xB3, 0xB9]"

definition other_numeric :: "char \<Rightarrow> bool" where
  "other_numeric c \<longleftrightarrow> (of_char c :: nat) \<in> set [0xBC, 0xBD, 0xBE]"

section \<open>Lookups in the store\<close>

lemma find_absent:
  "code \<notin> set (map u_short_code us) \<Longrightarrow> find (\<lambda>u. u_short_code u = code) us = None"
  by (induction us) auto

lemma find_stored:
  "distinct (map u_short_code us) \<Longrightarrow> u \<in> set us \<Longrightarrow>
   find (\<lambda>v. u_short_code v = u_short_code u) us = Some u"
  by (induction us) (auto simp: rev_image_eqI)

lemma is_expired_iff:
  "is_expired e t \<longleftrightarrow> wall e - (case tzinfo e of None \<Rightarrow> 0 | Some off \<Rightarrow> off) < t"
  by (cases "tzinfo e") (simp_all add: is_expired_def utc_instant_def utc_now_def Let_def)

lemma example_db_ok: "store_ok example_db"
  by (simp add: store_ok_def example_db_def)

section \<open>Failing redirects\<close>

text \<open>
  Claim C3. A redirect for a code that no record of the store carries fails with the
  error 404 (\<open>NotFound\<close>). A redirect for a stored code whose \<open>expires_at\<close> is set and lies
  before the reading of the clock at the expiry test (a naive \<open>expires_at\<close> read as UTC,
  an aware one by its offset) fails with the error 410 (\<open>Expired\<close>). In both cases the two
  tables are what they were: no click is inserted and no URL record, hence no
  \<open>click_count\<close> and no access time, is changed.
\<close>

theorem resolve_failures:
  "(code \<notin> set (map u_short_code (urls db)) \<longrightarrow>
      fst (redirect_to_url code req t1 t2 t3 db) = Inl (HTTPException 404 ''Short URL not found'') \<and>
      urls (snd (redirect_to_url code req t1 t2 t3 db)) = urls db \<and>
      clicks (snd (redirect_to_url code req t1 t2 t3 db)) = clicks db) \<and>
   (store_ok db \<and> u \<in> set (urls db) \<and> u_short_code u = code \<and> u_expires_at u = Some e \<and>
    wall e - (case tzinfo e of None \<Rightarrow> 0 | Some off \<Rightarrow> off) < t1 \<longrightarrow>
      fst (redirect_to_url code req t1 t2 t3 db) = Inl (HTTPException 410 ''Short URL has expired'') \<and>
      urls (snd (redirect_to_url code req t1 t2 t3 db)) = urls db \<and>
      clicks (snd (redirect_to_url code req t1 t2 t3 db)) = clicks db)"
proof (intro conjI impI)
  assume "code \<notin> set (map u_short_code (urls db))"
  then have f: "find (\<lambda>u. u_short_code u = code) (urls db) = None" by (rule find_absent)
  show "fst (redirect_to_url code req t1 t2 t3 db) = Inl (HTTPException 404 ''Short URL not found'')"
    "urls (snd (redirect_to_url code req t1 t2 t3 db)) = urls db"
    "clicks (snd (redirect_to_url code req t1 t2 t3 db)) = clicks db"
    by (simp_all add: redirect_to_url_def query_url_first_def f)
next
  assume a: "store_ok db \<and> u \<in> set (urls db) \<and> u_short_code u = code \<and> u_expires_at u = Some e \<and>
    wall e - (case tzinfo e of None \<Rightarrow> 0 | Some off \<Rightarrow> off) < t1"
  then have f: "find (\<lambda>v. u_short_code v = code) (urls db) = Some u"
    using find_stored [of "urls db" u] by (auto simp: store_ok_def)
  from a have x: "is_expired e t1" by (simp add: is_expired_iff)
  show "fst (redirect_to_url code req t1 t2 t3 db) = Inl (HTTPException 410 ''Short URL has expired'')"
    "urls (snd (redirect_to_url code req t1 t2 t3 db)) = urls db"
    "clicks (snd (redirect_to_url code req t1 t2 t3 db)) = clicks db"
    using a by (simp_all add: redirect_to_url_def query_url_first_def f x)
qed

theorem resolve_failures_witness:
  "fst (redirect_to_url ''nope'' example_request 100 101 102 example_db)
     = Inl (HTTPException 404 ''Short URL not found'') \<and>
   fst (redirect_to_url ''old'' example_request 100 101 102 example_db)
     = Inl (HTTPException 410 ''Short URL has expired'') \<and>
   urls (snd (redirect_to_url ''old'' example_request 100 101 102 example_db)) = urls example_db \<and>
   clicks (snd (redirect_to_url ''old'' example_request 100 101 102 example_db)) = []"
  using resolve_failures [where code = "''nope''" and db = example_db and req = example_request
      and ?t1.0 = 100 and ?t2.0 = 101 and ?t3.0 = 102]
    resolve_failures [where code = "''old''" and db = example_db and u = "urls example_db ! 1"
      and e = "\<lparr>wall = 70, tzinfo = None\<rparr>" and ?t1.0 = 100 and req = example_request
      and ?t2.0 = 101 and ?t3.0 = 102]
    example_db_ok
  by (simp add: example_db_def)

section \<open>The store after a successful redirect\<close>

lemma fold_max_ge: "(a::int) \<le> fold max xs a"
  by (induction xs arbitrary: a) (auto intro: order_trans [OF max.cobounded2])

lemma fold_max_mem: "x \<in> set xs \<Longrightarrow> (x::int) \<le> fold max xs a"
proof (induction xs arbitrary: a)
  case Nil
  then show ?case by simp
next
  case (Cons y ys)
  show ?case
  proof (cases "x = y")
    case True
    have "y \<le> max y a" by simp
    also have "\<dots> \<le> fold max ys (max y a)" by (rule fold_max_ge)
    finally show ?thesis using True by simp
  next
    case False
    with Cons show ?thesis by simp
  qed
qed

lemma new_id_fresh: "new_id ids \<notin> set ids"
proof
  assume "new_id ids \<in> set ids"
  then have "new_id ids \<le> fold max ids 0" by (rule fold_max_mem)
  then show False by (simp add: new_id_def)
qed

lemma map_id_update: "map u_id (map (\<lambda>v. if u_id v = u_id w then w else v) us) = map u_id us"
  by (induction us) auto

lemma map_code_update:
  "u \<in> set us \<Longrightarrow> distinct (map u_id us) \<Longrightarrow> u_id w = u_id u \<Longrightarrow> u_short_code w = u_short_code u \<Longrightarrow>
   map u_short_code (map (\<lambda>v. if u_id v = u_id w then w else v) us) = map u_short_code us"
proof (induction us)
  case Nil
  then show ?case by simp
next
  case (Cons a us)
  show ?case
  proof (cases "a = u")
    case True
    with Cons.prems have "\<forall>v\<in>set us. u_id v \<noteq> u_id w" by (auto simp: image_iff)
    then have "map (\<lambda>v. if u_id v = u_id w then w else v) us = us"
      by (induction us) auto
    with True Cons.prems show ?thesis by simp
  next
    case False
    with Cons.prems have "u \<in> set us" and "u_id a \<noteq> u_id w" by (auto simp: image_iff)
    with Cons show ?thesis by simp
  qed
qed

lemma update_mem:
  "u \<in> set us \<Longrightarrow> u_id w = u_id u \<Longrightarrow> w \<in> set (map (\<lambda>v. if u_id v = u_id w then w else v) us)"
  by (induction us) auto

lemma redirect_success:
  assumes ok: "store_ok db" and mem: "u \<in> set (urls db)" and code: "u_short_code u = code"
    and live: "not_expired u t1" and host: "client_host req = Some host"
  shows "redirect_to_url code req t1 t2 t3 db =
      (Inr (\<lparr>location = u_original_url u, status_code = 307\<rparr>,
            \<lparr>row = u\<lparr>u_click_count := u_click_count u + 1\<rparr>, last_accessed = Some (utc_now t2)\<rparr>),
       \<lparr>urls = map (\<lambda>v. if u_id v = u_id u then u\<lparr>u_click_count := u_click_count u + 1\<rparr> else v)
                 (urls db),
        clicks = clicks db @
          [\<lparr>c_id = new_id (map c_id (clicks db)), c_url_id = u_id u, c_ip_address = Some host,
            c_user_agent = Some (case header_user_agent req of None \<Rightarrow> ''Unknown'' | Some a \<Rightarrow> a),
            c_referer = header_referer req, c_clicked_at = utcnow t3\<rparr>],
        log = log db @ [SelectURL code, UpdateURL (u_id u), InsertClick (u_id u)]\<rparr>)"
proof -
  from ok mem code have f: "find (\<lambda>v. u_short_code v = code) (urls db) = Some u"
    using find_stored [of "urls db" u] by (auto simp: store_ok_def)
  from live have x: "\<not> (case u_expires_at u of None \<Rightarrow> False | Some e \<Rightarrow> is_expired e t1)"
    by (auto simp: not_expired_def is_expired_iff split: option.splits)
  show ?thesis
    unfolding redirect_to_url_def query_url_first_def f
    using x host
    by (simp add: Let_def update_url_def insert_click_def)
qed

lemma redirect_success_ok:
  assumes ok: "store_ok db" and mem: "u \<in> set (urls db)" and code: "u_short_code u = code"
    and live: "not_expired u t1" and host: "client_host req = Some host"
  shows "store_ok (snd (redirect_to_url code req t1 t2 t3 db))"
    and "u\<lparr>u_click_count := u_click_count u + 1\<rparr> \<in> set (urls (snd (redirect_to_url code req t1 t2 t3 db)))"
proof -
  let ?u' = "u\<lparr>u_click_count := u_click_count u + 1\<rparr>"
  have idu: "u_id ?u' = u_id u" and cu: "u_short_code ?u' = u_short_code u" by simp_all
  have m1: "map u_id (map (\<lambda>v. if u_id v = u_id u then ?u' else v) (urls db)) = map u_id (urls db)"
    using map_id_update [of ?u' "urls db"] by simp
  have m2: "map u_short_code (map (\<lambda>v. if u_id v = u_id u then ?u' else v) (urls db))
      = map u_short_code (urls db)"
    using map_code_update [OF mem _ idu cu] ok by (simp add: store_ok_def)
  have fresh: "new_id (map c_id (clicks db)) \<notin> set (map c_id (clicks db))" by (rule new_id_fresh)
  have inid: "u_id u \<in> set (map u_id (urls db))" using mem by simp
  show "store_ok (snd (redirect_to_url code req t1 t2 t3 db))"
    unfolding redirect_success [OF assms] using ok fresh inid
    unfolding store_ok_def snd_conv database.simps m1 m2
    by simp
  show "?u' \<in> set (urls (snd (redirect_to_url code req t1 t2 t3 db)))"
    unfolding redirect_success [OF assms] using update_mem [OF mem idu] by simp
qed

section \<open>Successful redirects\<close>

text \<open>
  Claim C2. Let \<open>code\<close> be the code of a stored record \<open>u\<close>, and let every redirect of
  \<open>calls\<close> come from a request with a client and read the clock at its expiry test at a
  time at which \<open>u\<close> is not expired. Then every one of these redirects succeeds; after
  them the record found under \<open>code\<close> is \<open>u\<close> with \<open>click_count\<close> raised by the number of
  calls and nothing else changed; the click table is the old one followed by one new
  click per call, each owned by \<open>u\<close>. So each successful redirect adds exactly 1 to
  \<open>click_count\<close> and appends exactly one click, and a record that starts at count 0 with no
  clicks has count \<open>N\<close> and \<open>N\<close> clicks after \<open>N\<close> redirects.
\<close>

theorem resolve_counts:
  assumes "store_ok db" and "u \<in> set (urls db)" and "u_short_code u = code"
    and "\<forall>(req, t1, t2, t3) \<in> set calls. client_host req \<noteq> None \<and> not_expired u t1"
  shows "\<exists>new. find (\<lambda>v. u_short_code v = code) (urls (snd (resolve_many code calls db)))
             = Some (u\<lparr>u_click_count := u_click_count u + int (length calls)\<rparr>) \<and>
           clicks (snd (resolve_many code calls db)) = clicks db @ new \<and>
           length new = length calls \<and>
           list_all (\<lambda>c. c_url_id c = u_id u) new \<and>
           length (owned_clicks (u_id u) (snd (resolve_many code calls db)))
             = length (owned_clicks (u_id u) db) + length calls \<and>
           length (fst (resolve_many code calls db)) = length calls \<and>
           list_all (\<lambda>r. \<not> isl r) (fst (resolve_many code calls db))"
proof -
  have "\<exists>new. find (\<lambda>v. u_short_code v = code) (urls (snd (resolve_many code calls db)))
             = Some (u\<lparr>u_click_count := u_click_count u + int (length calls)\<rparr>) \<and>
           clicks (snd (resolve_many code calls db)) = clicks db @ new \<and>
           length new = length calls \<and>
           list_all (\<lambda>c. c_url_id c = u_id u) new \<and>
           length (fst (resolve_many code calls db)) = length calls \<and>
           list_all (\<lambda>r. \<not> isl r) (fst (resolve_many code calls db))"
    using assms
  proof (induction calls arbitrary: db u)
    case Nil
    then have "find (\<lambda>v. u_short_code v = code) (urls db) = Some u"
      using find_stored [of "urls db" u] by (auto simp: store_ok_def)
    then show ?case by simp
  next
    case (Cons call calls)
    obtain req t1 t2 t3 where call: "call = (req, t1, t2, t3)" by (cases call) auto
    from Cons.prems(4) call obtain host where host: "client_host req = Some host"
      and live: "not_expired u t1" by auto
    let ?u' = "u\<lparr>u_click_count := u_click_count u + 1\<rparr>"
    let ?r = "redirect_to_url code req t1 t2 t3 db"
    note step = redirect_success [OF Cons.prems(1-3) live host, of t2 t3]
    have ok1: "store_ok (snd ?r)" and mem1: "?u' \<in> set (urls (snd ?r))"
      using redirect_success_ok [OF Cons.prems(1-3) live host] by auto
    have code1: "u_short_code ?u' = code" using Cons.prems(3) by simp
    have live1: "\<forall>(req, t1, t2, t3) \<in> set calls. client_host req \<noteq> None \<and> not_expired ?u' t1"
      using Cons.prems(4) by (auto simp: not_expired_def)
    from Cons.IH [OF ok1 mem1 code1 live1] obtain new where
      n: "find (\<lambda>v. u_short_code v = code) (urls (snd (resolve_many code calls (snd ?r))))
            = Some (?u'\<lparr>u_click_count := u_click_count ?u' + int (length calls)\<rparr>)"
        "clicks (snd (resolve_many code calls (snd ?r))) = clicks (snd ?r) @ new"
        "length new = length calls" "list_all (\<lambda>c. c_url_id c = u_id ?u') new"
        "length (fst (resolve_many code calls (snd ?r))) = length calls"
        "list_all (\<lambda>r. \<not> isl r) (fst (resolve_many code calls (snd ?r)))"
      by blast
    have r: "resolve_many code (call # calls) db =
        (fst ?r # fst (resolve_many code calls (snd ?r)), snd (resolve_many code calls (snd ?r)))"
      by (simp add: call split: prod.splits)
    have c1: "\<exists>c. clicks (snd ?r) = clicks db @ [c] \<and> c_url_id c = u_id u"
      and s1: "\<not> isl (fst ?r)"
      unfolding step by simp_all
    then obtain c where c: "clicks (snd ?r) = clicks db @ [c]" "c_url_id c = u_id u" by blast
    have eq: "?u'\<lparr>u_click_count := u_click_count ?u' + int (length calls)\<rparr>
        = u\<lparr>u_click_count := u_click_count u + int (length (call # calls))\<rparr>" by simp
    show ?case
      unfolding r fst_conv snd_conv
      apply (rule exI [of _ "c # new"])
      using n c s1 unfolding eq by simp
  qed
  then obtain new where n:
      "find (\<lambda>v. u_short_code v = code) (urls (snd (resolve_many code calls db)))
         = Some (u\<lparr>u_click_count := u_click_count u + int (length calls)\<rparr>)"
      "clicks (snd (resolve_many code calls db)) = clicks db @ new"
      "length new = length calls" "list_all (\<lambda>c. c_url_id c = u_id u) new"
      "length (fst (resolve_many code calls db)) = length calls"
      "list_all (\<lambda>r. \<not> isl r) (fst (resolve_many code calls db))"
    by blast
  from n(4) have "filter (\<lambda>c. c_url_id c = u_id u) new = new"
    by (simp add: list_all_iff)
  with n(2,3) have "length (owned_clicks (u_id u) (snd (resolve_many code calls db)))
      = length (owned_clicks (u_id u) db) + length calls"
    by (simp add: owned_clicks_def)
  with n show ?thesis by blast
qed

theorem resolve_counts_witness:
  "map_option u_click_count
     (find (\<lambda>v. u_short_code v = ''abc'')
        (urls (snd (resolve_many ''abc''
           [(example_request, 100, 101, 102), (example_request, 200, 201, 202)] example_db))))
     = Some 2 \<and>
   length (owned_clicks 1 (snd (resolve_many ''abc''
           [(example_request, 100, 101, 102), (example_request, 200, 201, 202)] example_db))) = 2"
  using resolve_counts [where db = example_db and u = "urls example_db ! 0" and code = "''abc''"
      and calls = "[(example_request, 100, 101, 102), (example_request, 200, 201, 202)]"]
    example_db_ok
  by (auto simp: example_db_def example_request_def not_expired_def owned_clicks_def)

section \<open>Statistics\<close>

lemma recent_sorted:
  "sorted_wrt (\<lambda>a b. wall (c_clicked_at b) \<le> wall (c_clicked_at a))
     (take n (sort_key (\<lambda>c. - wall (c_clicked_at c)) xs))"
proof -
  have "sorted (map (\<lambda>c. - wall (c_clicked_at c)) (sort_key (\<lambda>c. - wall (c_clicked_at c)) xs))"
    by (rule sorted_sort_key)
  then have "sorted_wrt (\<lambda>a b. wall (c_clicked_at b) \<le> wall (c_clicked_at a))
      (sort_key (\<lambda>c. - wall (c_clicked_at c)) xs)"
    by (simp add: sorted_wrt_map)
  then show ?thesis by (rule sorted_wrt_take)
qed

lemma example_clicked_db_ok: "store_ok example_clicked_db"
  by (simp add: store_ok_def example_clicked_db_def example_db_def)

text \<open>
  Claim C7. For the code of a stored record, \<open>get_url_stats\<close> succeeds and returns at
  most 10 click records (as many as the record owns, if fewer), ordered newest first by
  \<open>clicked_at\<close>, each of them a click owned by the record; the two tables of the store are
  what they were before the call.
\<close>

theorem stats_recent_clicks:
  assumes "store_ok db" and "u \<in> set (urls db)" and "u_short_code u = code"
  shows "\<exists>stats. fst (get_url_stats code db) = Inr stats \<and>
           length (s_recent_clicks stats) \<le> 10 \<and>
           length (s_recent_clicks stats) = min 10 (length (owned_clicks (u_id u) db)) \<and>
           newest_first (s_recent_clicks stats) \<and>
           set (s_recent_clicks stats) \<subseteq> click_response ` set (owned_clicks (u_id u) db) \<and>
           urls (snd (get_url_stats code db)) = urls db \<and>
           clicks (snd (get_url_stats code db)) = clicks db"
proof -
  from assms have f: "find (\<lambda>v. u_short_code v = code) (urls db) = Some u"
    using find_stored [of "urls db" u] by (auto simp: store_ok_def)
  let ?cs = "take 10 (sort_key (\<lambda>c. - wall (c_clicked_at c)) (owned_clicks (u_id u) db))"
  have g: "get_url_stats code db =
      (Inr \<lparr>s_id = u_id u, s_original_url = u_original_url u,
             s_short_code = u_short_code u, s_created_at = u_created_at u,
             s_expires_at = u_expires_at u, s_click_count = u_click_count u,
             s_last_accessed = u_last_checked u,
             s_recent_clicks = map click_response ?cs\<rparr>,
       db\<lparr>log := log db @ [SelectURL code, SelectClicks (u_id u)]\<rparr>)"
    by (simp add: get_url_stats_def query_url_first_def query_recent_clicks_def f owned_clicks_def)
  have s: "newest_first (map click_response ?cs)"
    unfolding newest_first_def sorted_wrt_map using recent_sorted [of 10 "owned_clicks (u_id u) db"]
    by (simp add: click_response_def)
  have sub: "set ?cs \<subseteq> set (owned_clicks (u_id u) db)"
    using set_take_subset [of 10 "sort_key (\<lambda>c. - wall (c_clicked_at c)) (owned_clicks (u_id u) db)"]
    by simp
  show ?thesis
    unfolding g using s sub by auto
qed

theorem stats_recent_clicks_witness:
  "map_sum id (\<lambda>stats. map cr_id (s_recent_clicks stats)) (fst (get_url_stats ''abc'' example_clicked_db))
     = Inr [2, 4, 1] \<and>
   clicks (snd (get_url_stats ''abc'' example_clicked_db)) = clicks example_clicked_db"
  using stats_recent_clicks [where db = example_clicked_db and u = "urls example_db ! 0"
      and code = "''abc''"] example_clicked_db_ok
  by (auto simp: example_clicked_db_def example_db_def get_url_stats_def query_url_first_def
      query_recent_clicks_def click_response_def utcnow_def)

section \<open>Deletion\<close>

text \<open>
  Claim C8. Deleting a code that no record carries fails with the error 404
  (\<open>NotFound\<close>) and leaves both tables as they were. Deleting the code of a stored record
  \<open>u\<close> answers 204, removes \<open>u\<close> and nothing else from the URL table, removes exactly the
  clicks owned by \<open>u\<close> from the click table, and leaves a store that satisfies its
  constraints and in which the code is unknown: \<open>get_url_stats\<close> and \<open>redirect_to_url\<close>
  on it fail with 404.
\<close>

theorem delete_removes:
  "(code \<notin> set (map u_short_code (urls db)) \<longrightarrow>
      fst (delete_url code db) = Inl (HTTPException 404 ''Short URL not found'') \<and>
      urls (snd (delete_url code db)) = urls db \<and>
      clicks (snd (delete_url code db)) = clicks db) \<and>
   (store_ok db \<and> u \<in> set (urls db) \<and> u_short_code u = code \<longrightarrow>
      fst (delete_url code db) = Inr 204 \<and>
      urls (snd (delete_url code db)) = filter (\<lambda>v. v \<noteq> u) (urls db) \<and>
      clicks (snd (delete_url code db)) = filter (\<lambda>c. c_url_id c \<noteq> u_id u) (clicks db) \<and>
      owned_clicks (u_id u) (snd (delete_url code db)) = [] \<and>
      code \<notin> set (map u_short_code (urls (snd (delete_url code db)))) \<and>
      store_ok (snd (delete_url code db)) \<and>
      fst (get_url_stats code (snd (delete_url code db)))
        = Inl (HTTPException 404 ''Short URL not found'') \<and>
      fst (redirect_to_url code req t1 t2 t3 (snd (delete_url code db)))
        = Inl (HTTPException 404 ''Short URL not found''))"
proof (intro conjI impI)
  assume "code \<notin> set (map u_short_code (urls db))"
  then have f: "find (\<lambda>u. u_short_code u = code) (urls db) = None" by (rule find_absent)
  show "fst (delete_url code db) = Inl (HTTPException 404 ''Short URL not found'')"
    "urls (snd (delete_url code db)) = urls db" "clicks (snd (delete_url code db)) = clicks db"
    by (simp_all add: delete_url_def query_url_first_def f)
next
  assume a: "store_ok db \<and> u \<in> set (urls db) \<and> u_short_code u = code"
  then have f: "find (\<lambda>v. u_short_code v = code) (urls db) = Some u"
    using find_stored [of "urls db" u] by (auto simp: store_ok_def)
  have d: "delete_url code db = (Inr 204, delete_url_row u (db\<lparr>log := log db @ [SelectURL code]\<rparr>))"
    by (simp add: delete_url_def query_url_first_def f)
  from a have di: "distinct (map u_id (urls db))" and dc: "distinct (map u_short_code (urls db))"
    by (simp_all add: store_ok_def)
  have same: "filter (\<lambda>v. u_id v \<noteq> u_id u) (urls db) = filter (\<lambda>v. v \<noteq> u) (urls db)"
  proof (rule filter_cong [OF refl])
    fix v assume "v \<in> set (urls db)"
    with a di show "(u_id v \<noteq> u_id u) = (v \<noteq> u)"
      by (auto simp: distinct_map dest: inj_onD)
  qed
  show "fst (delete_url code db) = Inr 204" by (simp add: d)
  show u': "urls (snd (delete_url code db)) = filter (\<lambda>v. v \<noteq> u) (urls db)"
    by (simp add: d delete_url_row_def same)
  show c': "clicks (snd (delete_url code db)) = filter (\<lambda>c. c_url_id c \<noteq> u_id u) (clicks db)"
    by (simp add: d delete_url_row_def)
  show "owned_clicks (u_id u) (snd (delete_url code db)) = []"
    by (simp add: owned_clicks_def c' filter_empty_conv)
  show gone: "code \<notin> set (map u_short_code (urls (snd (delete_url code db))))"
  proof
    assume "code \<in> set (map u_short_code (urls (snd (delete_url code db))))"
    then obtain v where "v \<in> set (urls db)" "v \<noteq> u" "u_short_code v = code"
      unfolding u' by auto
    with a dc show False by (auto simp: distinct_map dest: inj_onD)
  qed
  then have f': "find (\<lambda>v. u_short_code v = code) (urls (snd (delete_url code db))) = None"
    by (rule find_absent)
  show "store_ok (snd (delete_url code db))"
  proof -
    have 1: "distinct (map u_id (filter (\<lambda>v. v \<noteq> u) (urls db)))"
      using di by (rule distinct_map_filter)
    have 2: "distinct (map u_short_code (filter (\<lambda>v. v \<noteq> u) (urls db)))"
      using dc by (rule distinct_map_filter)
    have 3: "distinct (map c_id (filter (\<lambda>c. c_url_id c \<noteq> u_id u) (clicks db)))"
      using a by (auto simp: store_ok_def intro: distinct_map_filter)
    have 4: "list_all (\<lambda>c. c_url_id c \<in> set (map u_id (filter (\<lambda>v. v \<noteq> u) (urls db))))
        (filter (\<lambda>c. c_url_id c \<noteq> u_id u) (clicks db))"
      using a by (auto simp: store_ok_def list_all_iff)
    show ?thesis unfolding store_ok_def u' c' using 1 2 3 4 by simp
  qed
  show "fst (get_url_stats code (snd (delete_url code db)))
        = Inl (HTTPException 404 ''Short URL not found'')"
    by (simp add: get_url_stats_def query_url_first_def f')
  show "fst (redirect_to_url code req t1 t2 t3 (snd (delete_url code db)))
        = Inl (HTTPException 404 ''Short URL not found'')"
    by (simp add: redirect_to_url_def query_url_first_def f')
qed

theorem delete_removes_witness:
  "fst (delete_url ''nope'' example_clicked_db) = Inl (HTTPException 404 ''Short URL not found'') \<and>
   fst (delete_url ''abc'' example_clicked_db) = Inr 204 \<and>
   map u_short_code (urls (snd (delete_url ''abc'' example_clicked_db))) = [''old''] \<and>
   map c_id (clicks (snd (delete_url ''abc'' example_clicked_db))) = [3] \<and>
   fst (get_url_stats ''abc'' (snd (delete_url ''abc'' example_clicked_db)))
     = Inl (HTTPException 404 ''Short URL not found'')"
  using delete_removes [where db = example_clicked_db and code = "''nope''"]
    delete_removes [where db = example_clicked_db and u = "urls example_db ! 0"
      and code = "''abc''"] example_clicked_db_ok
  by (auto simp: example_clicked_db_def example_db_def)

section \<open>The access time in the statistics\<close>

text \<open>
  After a successful redirect the statistics of the same code report as \<open>last_accessed\<close>
  the column \<open>last_checked\<close> of the record as it was before the redirect: the redirect
  writes the time to the attribute \<open>last_accessed\<close> of the Python object, which is no
  column, and \<open>get_url_stats\<close> reads the column \<open>last_checked\<close>, which no handler writes.
\<close>

lemma stats_after_redirect:
  assumes "store_ok db" and "u \<in> set (urls db)" and "u_short_code u = code"
    and "not_expired u t1" and "client_host req = Some host"
  shows "map_sum id s_last_accessed
      (fst (get_url_stats code (snd (redirect_to_url code req t1 t2 t3 db)))) = Inr (u_last_checked u)"
proof -
  let ?u' = "u\<lparr>u_click_count := u_click_count u + 1\<rparr>"
  let ?db = "snd (redirect_to_url code req t1 t2 t3 db)"
  have "store_ok ?db" and "?u' \<in> set (urls ?db)"
    using redirect_success_ok [OF assms] by auto
  then have "find (\<lambda>v. u_short_code v = code) (urls ?db) = Some ?u'"
    using find_stored [of "urls ?db" ?u'] assms(3) by (auto simp: store_ok_def)
  then show ?thesis
    by (simp add: get_url_stats_def query_url_first_def query_recent_clicks_def)
qed

text \<open>
  Claim C1, evaluated on the example store: a redirect for \<open>abc\<close> succeeds and sets
  \<open>last_accessed\<close> of the object to the reading 101 of the clock; the statistics requested
  next report the new \<open>click_count\<close> 1 and no \<open>last_accessed\<close> at all.
\<close>

theorem stats_misses_last_access:
  "fst (redirect_to_url ''abc'' example_request 100 101 102 example_db)
     = Inr (\<lparr>location = ''https://example.com/a'', status_code = 307\<rparr>,
            \<lparr>row = (urls example_db ! 0)\<lparr>u_click_count := 1\<rparr>, last_accessed = Some (utc_now 101)\<rparr>) \<and>
   map_sum id s_last_accessed
     (fst (get_url_stats ''abc'' (snd (redirect_to_url ''abc'' example_request 100 101 102 example_db))))
     = Inr None \<and>
   map_sum id s_click_count
     (fst (get_url_stats ''abc'' (snd (redirect_to_url ''abc'' example_request 100 101 102 example_db))))
     = Inr 1"
  by (simp add: redirect_to_url_def get_url_stats_def query_url_first_def query_recent_clicks_def
      example_db_def example_request_def update_url_def insert_click_def Let_def)

section \<open>Allocation of generated codes\<close>

lemma find_code_iff:
  "(find (\<lambda>u. u_short_code u = code) us = None) = (code \<notin> set (map u_short_code us))"
  by (induction us) auto

lemma generate_unique_result:
  "fst (generate_unique n g db) = find (\<lambda>c. c \<notin> stored_codes db) (candidates n g) \<and>
   urls (snd (snd (generate_unique n g db))) = urls db \<and>
   clicks (snd (snd (generate_unique n g db))) = clicks db \<and>
   log (snd (snd (generate_unique n g db)))
     = log db @ map SelectURL (checked_candidates (candidates n g) db)"
proof (induction n arbitrary: g db)
  case 0
  show ?case by (simp add: checked_candidates_def)
next
  case (Suc n)
  obtain c g1 where c: "generate_short_code 6 g = (c, g1)" by (cases "generate_short_code 6 g")
  let ?db1 = "db\<lparr>log := log db @ [SelectURL c]\<rparr>"
  have sc: "stored_codes ?db1 = stored_codes db" by (simp add: stored_codes_def)
  show ?case
  proof (cases "c \<in> stored_codes db")
    case False
    then have "find (\<lambda>u. u_short_code u = c) (urls db) = None"
      by (simp add: find_code_iff stored_codes_def)
    with False show ?thesis
      by (simp add: c query_url_first_def checked_candidates_def)
  next
    case True
    then obtain e where e: "find (\<lambda>u. u_short_code u = c) (urls db) = Some e"
      using find_code_iff [of c "urls db"] by (auto simp: stored_codes_def)
    have step: "generate_unique (Suc n) g db = generate_unique n g1 ?db1"
      by (simp add: c query_url_first_def e)
    have cc: "checked_candidates (candidates n g1) ?db1 = checked_candidates (candidates n g1) db"
      by (simp add: checked_candidates_def sc)
    from Suc [of g1 ?db1] True show ?thesis
      unfolding step by (simp add: c sc cc) (simp add: checked_candidates_def)
  qed
qed

lemma generate_short_code_shape:
  "length (fst (generate_short_code len g)) = nat len \<and>
   set (fst (generate_short_code len g)) \<subseteq> set characters"
proof -
  have "0 < length characters"
    by (simp add: characters_def ascii_letters_def ascii_lowercase_def ascii_uppercase_def digits_def)
  then have "characters ! (k mod length characters) \<in> set characters" for k
    by simp
  then show ?thesis by (auto simp: generate_short_code_def)
qed

lemma candidates_shape:
  "c \<in> set (candidates n g) \<Longrightarrow> length c = 6 \<and> set c \<subseteq> set characters"
proof (induction n arbitrary: g)
  case 0
  then show ?case by simp
next
  case (Suc n)
  obtain d g1 where d: "generate_short_code 6 g = (d, g1)" by (cases "generate_short_code 6 g")
  from generate_short_code_shape [of 6 g] d
  have "length d = 6 \<and> set d \<subseteq> set characters" by simp
  with Suc d show ?case by auto
qed

lemma checked_candidates_length: "length (checked_candidates cands db) \<le> length cands"
proof -
  have "length (takeWhile (\<lambda>c. c \<in> stored_codes db) cands) +
      length (dropWhile (\<lambda>c. c \<in> stored_codes db) cands) = length cands"
    by (metis length_append takeWhile_dropWhile_id)
  then show ?thesis by (simp add: checked_candidates_def)
qed

lemma candidates_length: "length (candidates n g) = n"
  by (induction n arbitrary: g) (auto split: prod.splits)

lemma create_generated:
  assumes valid: "is_valid_url (original_url url_data)" and noalias: "custom_alias url_data = None"
  shows "create_short_url url_data req now g db =
    (case generate_unique 10 g db of
       (None, g1, db1) \<Rightarrow> (Inl (HTTPException 500 ''Failed to generate unique short code''), g1, db1)
     | (Some c, g1, db1) \<Rightarrow>
         (case insert_url (original_url url_data) c (expires_at url_data) now db1 of
            (Inl e, db2) \<Rightarrow> (Inl e, g1, db2)
          | (Inr db_url, db2) \<Rightarrow>
              (Inr \<lparr>r_id = u_id db_url, r_original_url = u_original_url db_url,
                    r_short_code = u_short_code db_url,
                    r_short_url = rstrip CHR ''/'' (base_url req) @ ''/'' @ c,
                    r_created_at = u_created_at db_url, r_expires_at = u_expires_at db_url,
                    r_click_count = u_click_count db_url\<rparr>, g1, db2)))"
  using assms
  by (simp add: create_short_url_def choose_short_code_def split: prod.splits option.splits)

lemma generated_code_allocation_aux:
  assumes valid: "is_valid_url (original_url url_data)" and noalias: "custom_alias url_data = None"
  shows "length (checked_candidates (candidates 10 g) db) \<le> 10 \<and>
    (case find (\<lambda>c. c \<notin> stored_codes db) (candidates 10 g) of
       Some c \<Rightarrow>
         (\<exists>r u. fst (create_short_url url_data req now g db) = Inr r \<and> r_short_code r = c \<and>
            urls (snd (snd (create_short_url url_data req now g db))) = urls db @ [u] \<and>
            u_short_code u = c \<and> u_original_url u = original_url url_data \<and>
            u_expires_at u = expires_at url_data \<and> u_click_count u = 0 \<and>
            clicks (snd (snd (create_short_url url_data req now g db))) = clicks db \<and>
            log (snd (snd (create_short_url url_data req now g db)))
              = log db @ map SelectURL (checked_candidates (candidates 10 g) db) @ [InsertURL c])
     | None \<Rightarrow>
         fst (create_short_url url_data req now g db)
           = Inl (HTTPException 500 ''Failed to generate unique short code'') \<and>
         urls (snd (snd (create_short_url url_data req now g db))) = urls db \<and>
         clicks (snd (snd (create_short_url url_data req now g db))) = clicks db \<and>
         log (snd (snd (create_short_url url_data req now g db)))
           = log db @ map SelectURL (candidates 10 g))"
proof -
  obtain res g1 db1 where gu: "generate_unique 10 g db = (res, g1, db1)"
    by (cases "generate_unique 10 g db") auto
  from generate_unique_result [of 10 g db] gu
  have res: "res = find (\<lambda>c. c \<notin> stored_codes db) (candidates 10 g)"
    and u1: "urls db1 = urls db" and c1: "clicks db1 = clicks db"
    and l1: "log db1 = log db @ map SelectURL (checked_candidates (candidates 10 g) db)"
    by simp_all
  have len: "length (checked_candidates (candidates 10 g) db) \<le> 10"
    using checked_candidates_length [of "candidates 10 g" db] by (simp add: candidates_length)
  show ?thesis
  proof (cases res)
    case None
    with res have "find (\<lambda>c. c \<notin> stored_codes db) (candidates 10 g) = None" by simp
    then have all: "\<forall>c\<in>set (candidates 10 g). c \<in> stored_codes db"
      by (auto simp: find_None_iff)
    then have tw: "takeWhile (\<lambda>c. c \<in> stored_codes db) (candidates 10 g) = candidates 10 g"
      and dw: "dropWhile (\<lambda>c. c \<in> stored_codes db) (candidates 10 g) = []"
      by simp_all
    have cc: "checked_candidates (candidates 10 g) db = candidates 10 g"
      unfolding checked_candidates_def tw dw by simp
    show ?thesis
      using len None res [symmetric] u1 c1 l1
      by (simp add: create_generated [OF assms] gu cc)
  next
    case (Some c)
    with res have f: "find (\<lambda>c. c \<notin> stored_codes db) (candidates 10 g) = Some c" by simp
    then have free: "c \<notin> set (map u_short_code (urls db1))"
      by (auto simp: find_Some_iff stored_codes_def u1)
    show ?thesis
      using len u1 c1 l1 free
      by (simp add: create_generated [OF assms] gu Some f insert_url_def Let_def)
  qed
qed

lemma example_body_valid: "is_valid_url (original_url example_body)"
  unfolding example_body_def by code_simp

lemma example_code: "fst (generate_short_code 6 (\<lambda>i. 7 * i + 3)) = ''dkryFM''"
  by code_simp

lemma example_create:
  "create_short_url example_body example_request 100 (\<lambda>i. 7 * i + 3) example_db =
     (Inr \<lparr>r_id = 3, r_original_url = ''https://example.com/a'', r_short_code = ''dkryFM'',
           r_short_url = ''http://short.example/dkryFM'', r_created_at = utc_now 100,
           r_expires_at = None, r_click_count = 0\<rparr>,
      (\<lambda>i. 7 * (i + 6) + 3),
      example_db\<lparr>urls := urls example_db @
          [\<lparr>u_id = 3, u_original_url = ''https://example.com/a'', u_short_code = ''dkryFM'',
            u_created_at = utc_now 100, u_expires_at = None, u_click_count = 0,
            u_last_checked = None\<rparr>],
        log := [SelectURL ''dkryFM'', InsertURL ''dkryFM'']\<rparr>)"
proof -
  have "snd (generate_short_code 6 (\<lambda>i. 7 * i + 3)) = (\<lambda>i. 7 * (i + 6) + 3)"
    by (simp add: generate_short_code_def)
  then have g: "generate_short_code 6 (\<lambda>i. 7 * i + 3) = (''dkryFM'', (\<lambda>i. 7 * (i + 6) + 3))"
    using example_code by (simp add: prod_eq_iff)
  have u: "generate_unique 10 (\<lambda>i. 7 * i + 3) example_db =
      (Some ''dkryFM'', (\<lambda>i. 7 * (i + 6) + 3), example_db\<lparr>log := [SelectURL ''dkryFM'']\<rparr>)"
    using generate_unique.simps(2) [of 9 "\<lambda>i. 7 * i + 3" example_db]
    by (simp add: g query_url_first_def example_db_def)
  show ?thesis
    using example_body_valid
    by (simp add: create_short_url_def choose_short_code_def u insert_url_def Let_def new_id_def
        rstrip_def) (simp add: example_body_def example_db_def example_request_def)
qed

text \<open>
  Claim C4. For a valid URL and no custom alias, \<open>create_short_url\<close> takes its code
  from the first 10 candidates of the generator. It queries the store for the candidates
  in order, up to and including the first that no record carries, so at most 10 times.
  If there is such a candidate, the call succeeds, the new record is appended to the URL
  table with that candidate as its code, and the insert is the only write. If all 10
  candidates are carried by records, the call fails with the error 500
  (\<open>GenerationExhausted\<close>) after exactly these 10 queries, and both tables are unchanged.
\<close>

theorem generated_code_allocation:
  assumes valid: "is_valid_url (original_url url_data)" and noalias: "custom_alias url_data = None"
  shows "length (checked_candidates (candidates 10 g) db) \<le> 10 \<and>
    (case find (\<lambda>c. c \<notin> stored_codes db) (candidates 10 g) of
       Some c \<Rightarrow>
         (\<exists>r u. fst (create_short_url url_data req now g db) = Inr r \<and> r_short_code r = c \<and>
            urls (snd (snd (create_short_url url_data req now g db))) = urls db @ [u] \<and>
            u_short_code u = c \<and> u_original_url u = original_url url_data \<and>
            u_expires_at u = expires_at url_data \<and> u_click_count u = 0 \<and>
            clicks (snd (snd (create_short_url url_data req now g db))) = clicks db \<and>
            log (snd (snd (create_short_url url_data req now g db)))
              = log db @ map SelectURL (checked_candidates (candidates 10 g) db) @ [InsertURL c])
     | None \<Rightarrow>
         fst (create_short_url url_data req now g db)
           = Inl (HTTPException 500 ''Failed to generate unique short code'') \<and>
         urls (snd (snd (create_short_url url_data req now g db))) = urls db \<and>
         clicks (snd (snd (create_short_url url_data req now g db))) = clicks db \<and>
         log (snd (snd (create_short_url url_data req now g db)))
           = log db @ map SelectURL (candidates 10 g))"
  using generated_code_allocation_aux [OF assms] .

theorem generated_code_allocation_witness:
  "map_sum id r_short_code
     (fst (create_short_url example_body example_request 100 (\<lambda>i. if i < 6 then 0 else 1) crowded_db))
     = Inr ''bbbbbb'' \<and>
   log (snd (snd (create_short_url example_body example_request 100
          (\<lambda>i. if i < 6 then 0 else 1) crowded_db)))
     = [SelectURL ''aaaaaa'', SelectURL ''bbbbbb'', InsertURL ''bbbbbb''] \<and>
   fst (create_short_url example_body example_request 100 (\<lambda>i. 0) crowded_db)
     = Inl (HTTPException 500 ''Failed to generate unique short code'') \<and>
   urls (snd (snd (create_short_url example_body example_request 100 (\<lambda>i. 0) crowded_db)))
     = urls crowded_db"
proof -
  have f1: "find (\<lambda>c. c \<notin> stored_codes crowded_db) (candidates 10 (\<lambda>i. if i < 6 then 0 else 1))
      = Some ''bbbbbb''"
    unfolding stored_codes_def crowded_db_def by code_simp
  have k1: "checked_candidates (candidates 10 (\<lambda>i. if i < 6 then 0 else 1)) crowded_db
      = [''aaaaaa'', ''bbbbbb'']"
    unfolding checked_candidates_def stored_codes_def crowded_db_def by code_simp
  have f2: "find (\<lambda>c. c \<notin> stored_codes crowded_db) (candidates 10 (\<lambda>i. 0)) = None"
    unfolding stored_codes_def crowded_db_def by code_simp
  have l0: "log crowded_db = []" by (simp add: crowded_db_def)
  show ?thesis
    using generated_code_allocation [OF example_body_valid, where g = "\<lambda>i. if i < 6 then 0 else 1"
        and db = crowded_db and req = example_request and now = 100]
      generated_code_allocation [OF example_body_valid, where g = "\<lambda>i. 0"
        and db = crowded_db and req = example_request and now = 100]
    unfolding f1 f2 k1 l0
    by (auto simp: example_body_def)
qed

section \<open>The shape of generated codes\<close>

text \<open>
  Claim C9. \<open>generate_short_code(length)\<close> returns a string of exactly \<open>length\<close>
  characters (for a \<open>length\<close> that is not negative: for a negative one \<open>random.choices\<close>
  returns the empty string), all of them from \<open>characters\<close>, the 62 distinct letters and
  digits. A successful \<open>create_short_url\<close> without custom alias returns a record whose
  \<open>short_code\<close> has 6 characters, all from that alphabet.
\<close>

theorem short_code_shape:
  "(0 \<le> len \<longrightarrow> length (fst (generate_short_code len g)) = nat len) \<and>
   set (fst (generate_short_code len g)) \<subseteq> set characters \<and>
   characters = ''abcdefghijklmnopqrstuvwxyzABCDEFGHIJKLMNOPQRSTUVWXYZ0123456789'' \<and>
   length characters = 62 \<and> distinct characters \<and>
   (custom_alias url_data = None \<and> fst (create_short_url url_data req now g db) = Inr r \<longrightarrow>
      length (r_short_code r) = 6 \<and> set (r_short_code r) \<subseteq> set characters)"
proof (intro conjI impI)
  show "length (fst (generate_short_code len g)) = nat len"
    using generate_short_code_shape [of len g] by simp
  show "set (fst (generate_short_code len g)) \<subseteq> set characters"
    using generate_short_code_shape [of len g] by simp
  show ch: "characters = ''abcdefghijklmnopqrstuvwxyzABCDEFGHIJKLMNOPQRSTUVWXYZ0123456789''"
    by (simp add: characters_def ascii_letters_def ascii_lowercase_def ascii_uppercase_def digits_def)
  show "length characters = 62" unfolding ch by simp
  show "distinct characters" unfolding ch by simp
next
  assume a: "custom_alias url_data = None \<and> fst (create_short_url url_data req now g db) = Inr r"
  then have valid: "is_valid_url (original_url url_data)"
    by (auto simp: create_short_url_def split: if_splits)
  from a have noalias: "custom_alias url_data = None" by simp
  note alloc = generated_code_allocation_aux [OF valid noalias, of g db req now]
  show "length (r_short_code r) = 6" "set (r_short_code r) \<subseteq> set characters"
  proof -
    from alloc a obtain c where f: "find (\<lambda>c. c \<notin> stored_codes db) (candidates 10 g) = Some c"
      and rc: "r_short_code r = c"
      by (cases "find (\<lambda>c. c \<notin> stored_codes db) (candidates 10 g)") auto
    from f have "c \<in> set (candidates 10 g)" by (auto simp: find_Some_iff)
    then have "length c = 6 \<and> set c \<subseteq> set characters" by (rule candidates_shape)
    with rc show "length (r_short_code r) = 6" "set (r_short_code r) \<subseteq> set characters" by simp_all
  qed
qed

theorem short_code_shape_witness:
  "fst (generate_short_code 6 (\<lambda>i. 7 * i + 3)) = ''dkryFM'' \<and>
   length (fst (generate_short_code 6 (\<lambda>i. 7 * i + 3))) = 6 \<and>
   map_sum id r_short_code
     (fst (create_short_url example_body example_request 100 (\<lambda>i. 7 * i + 3) example_db))
     = Inr ''dkryFM'' \<and>
   set ''dkryFM'' \<subseteq> set characters"
  using short_code_shape [where len = 6 and g = "\<lambda>i. 7 * i + 3" and url_data = example_body
      and req = example_request and now = 100 and db = example_db
      and r = "\<lparr>r_id = 3, r_original_url = ''https://example.com/a'', r_short_code = ''dkryFM'',
           r_short_url = ''http://short.example/dkryFM'', r_created_at = utc_now 100,
           r_expires_at = None, r_click_count = 0\<rparr>"]
  by (simp add: example_create example_code)

section \<open>The short URL in the responses\<close>

lemma rstrip_single: "b = [] \<or> last b \<noteq> c \<Longrightarrow> rstrip c (b @ [c]) = b"
proof -
  assume a: "b = [] \<or> last b \<noteq> c"
  have "dropWhile (\<lambda>x. x = c) (rev b) = rev b"
  proof (cases b rule: rev_cases)
    case Nil
    then show ?thesis by simp
  next
    case (snoc ys y)
    with a show ?thesis by simp
  qed
  then show ?thesis by (simp add: rstrip_def)
qed

lemma create_short_url_code:
  "fst (create_short_url url_data req now g db) = Inr r \<Longrightarrow>
   r_short_url r = rstrip CHR ''/'' (base_url req) @ ''/'' @ r_short_code r"
  by (auto simp: create_short_url_def insert_url_def Let_def split: if_splits prod.splits sum.splits)

text \<open>
  Claim C10. Every record that \<open>list_urls\<close> returns has as \<open>short_url\<close> the relative
  string \<open>/\<close> followed by its \<open>short_code\<close> (the code of a stored record), with no base
  address. A successful \<open>create_short_url\<close> returns as \<open>short_url\<close> the base URL of the
  request without its trailing slashes, followed by \<open>/\<close> and the code; for a base URL
  \<open>b/\<close> with \<open>b\<close> not ending in a slash, that is \<open>b\<close>, \<open>/\<close> and the code.
\<close>

theorem short_url_forms:
  "(\<forall>r \<in> set (fst (list_urls skip limit db)).
      r_short_url r = ''/'' @ r_short_code r \<and> r_short_code r \<in> stored_codes db) \<and>
   (fst (create_short_url url_data req now g db) = Inr r' \<longrightarrow>
      r_short_url r' = rstrip CHR ''/'' (base_url req) @ ''/'' @ r_short_code r' \<and>
      (base_url req = b @ ''/'' \<and> (b = [] \<or> last b \<noteq> CHR ''/'') \<longrightarrow>
         r_short_url r' = b @ ''/'' @ r_short_code r'))"
proof (intro conjI impI ballI)
  fix r assume "r \<in> set (fst (list_urls skip limit db))"
  then obtain u where u: "u \<in> set (take limit (drop skip (urls db)))"
    and r: "r = \<lparr>r_id = u_id u, r_original_url = u_original_url u,
                        r_short_code = u_short_code u, r_short_url = ''/'' @ u_short_code u,
                        r_created_at = u_created_at u, r_expires_at = u_expires_at u,
                        r_click_count = u_click_count u\<rparr>"
    by (auto simp: list_urls_def query_urls_page_def)
  from u have "u \<in> set (urls db)" by (meson in_set_dropD in_set_takeD)
  with r show "r_short_url r = ''/'' @ r_short_code r" "r_short_code r \<in> stored_codes db"
    by (simp_all add: stored_codes_def)
next
  assume a: "fst (create_short_url url_data req now g db) = Inr r'"
  then show e: "r_short_url r' = rstrip CHR ''/'' (base_url req) @ ''/'' @ r_short_code r'"
    by (rule create_short_url_code)
  assume "base_url req = b @ ''/'' \<and> (b = [] \<or> last b \<noteq> CHR ''/'')"
  then show "r_short_url r' = b @ ''/'' @ r_short_code r'"
    using e rstrip_single [of b "CHR ''/''"] by simp
qed

theorem short_url_forms_witness:
  "map r_short_url (fst (list_urls 0 100 example_db)) = [''/abc'', ''/old''] \<and>
   map_sum id r_short_url
     (fst (create_short_url example_body example_request 100 (\<lambda>i. 7 * i + 3) example_db))
     = Inr ''http://short.example/dkryFM''"
  using short_url_forms [where skip = 0 and limit = 100 and db = example_db
      and url_data = example_body and req = example_request and now = 100
      and g = "\<lambda>i. 7 * i + 3" and b = "''http://short.example''"
      and r' = "\<lparr>r_id = 3, r_original_url = ''https://example.com/a'', r_short_code = ''dkryFM'',
           r_short_url = ''http://short.example/dkryFM'', r_created_at = utc_now 100,
           r_expires_at = None, r_click_count = 0\<rparr>"]
  by (simp add: example_create) (simp add: list_urls_def query_urls_page_def example_db_def)

section \<open>Rejected aliases\<close>

text \<open>
  \<open>str.isalnum\<close>, which the validator of the schema tests, holds of the letters, of the
  digits, and of the other numeric characters.
\<close>

lemma isalnum_iff: "isalnum c \<longleftrightarrow> str_isalpha c \<or> str_isdigit c \<or> other_numeric c"
  unfolding isalnum_def str_isalpha_def str_isdigit_def other_numeric_def Let_def
  by auto

text \<open>
  Claim C5, as amended. A request \<open>POST /api/v1/shorten\<close> (\<open>post_shorten\<close>: the schema,
  then the handler) with a custom alias that is shorter than 3 or longer than 20
  characters, or that contains a character which is neither a letter, nor a digit, nor
  another numeric character, nor a hyphen, nor an underscore, is rejected before any
  access to the store: the validation of the request body fails with an error on the
  field \<open>custom_alias\<close> and the handler does not run. The store, with its log of
  statements, and the random source are what they were, so no query and no insert took
  place.
\<close>

theorem invalid_alias_rejected:
  assumes "custom_alias body = Some a"
    and "length a < 3 \<or> 20 < length a \<or>
         (\<exists>c \<in> set a. \<not> str_isalpha c \<and> \<not> str_isdigit c \<and> \<not> other_numeric c \<and>
                        c \<noteq> CHR ''-'' \<and> c \<noteq> CHR ''_'')"
  shows "\<exists>errs. post_shorten body req now g db = (Inl (RequestValidationError errs), g, db) \<and>
           ''custom_alias'' \<in> fst ` set errs"
proof -
  have e2: "(case check_length 3 20 a of
                       Some k \<Rightarrow> [(''custom_alias'', k)]
                     | None \<Rightarrow>
                         (case validate_custom_alias (Some a) of
                            Inl k \<Rightarrow> [(''custom_alias'', k)]
                          | Inr _ \<Rightarrow> [])) \<noteq> [] \<and>
      ''custom_alias'' \<in> fst ` set (case check_length 3 20 a of
                       Some k \<Rightarrow> [(''custom_alias'', k)]
                     | None \<Rightarrow>
                         (case validate_custom_alias (Some a) of
                            Inl k \<Rightarrow> [(''custom_alias'', k)]
                          | Inr _ \<Rightarrow> []))"
  proof (cases "length a < 3 \<or> 20 < length a")
    case True
    then show ?thesis by (auto simp: check_length_def)
  next
    case False
    with assms(2) obtain c where "c \<in> set a" "\<not> isalnum c" "c \<noteq> CHR ''-''" "c \<noteq> CHR ''_''"
      by (auto simp: isalnum_iff)
    then have "\<not> list_all (\<lambda>c. isalnum c \<or> c \<in> set ''-_'') a"
      by (auto simp: list_all_iff)
    with False show ?thesis by (simp add: check_length_def validate_custom_alias_def)
  qed
  then show ?thesis
    using assms(1)
    by (auto simp: post_shorten_def URLCreate_validate_def Let_def split: option.splits)
qed

theorem invalid_alias_rejected_witness:
  "post_shorten (example_body\<lparr>custom_alias := Some ''ab''\<rparr>) example_request 100 (\<lambda>i. 0) example_db
     = (Inl (RequestValidationError [(''custom_alias'', string_too_short)]), (\<lambda>i. 0), example_db) \<and>
   post_shorten (example_body\<lparr>custom_alias := Some ''my link''\<rparr>) example_request 100 (\<lambda>i. 0) example_db
     = (Inl (RequestValidationError [(''custom_alias'', value_error)]), (\<lambda>i. 0), example_db)"
  using invalid_alias_rejected [where body = "example_body\<lparr>custom_alias := Some ''ab''\<rparr>"
      and a = "''ab''" and req = example_request and now = 100 and g = "\<lambda>i. 0" and db = example_db]
    invalid_alias_rejected [where body = "example_body\<lparr>custom_alias := Some ''my link''\<rparr>"
      and a = "''my link''" and req = example_request and now = 100 and g = "\<lambda>i. 0"
      and db = example_db]
  by (simp add: post_shorten_def URLCreate_validate_def check_length_def validate_custom_alias_def
      isalnum_def str_isalpha_def str_isdigit_def other_numeric_def example_body_def
      ascii_letters_def ascii_lowercase_def ascii_uppercase_def digits_def Let_def)

text \<open>
  Claim C5 as it was stated fails. The alias \<open>ab\<close> followed by the vulgar fraction one
  quarter (U+00BC) has three characters, and its last character is neither a letter, nor
  a digit, nor a hyphen, nor an underscore; yet \<open>str.isalnum\<close> holds of it, so the
  request passes the schema, the handler queries the store for the alias and inserts a
  record that carries it. And where an alias is rejected, as \<open>ab\<close> is for its length, the
  error is the validation error of the schema, not the handler's \<open>HTTPException\<close> with
  status 400.
\<close>

theorem alias_with_fraction_accepted:
  "\<not> str_isalpha (CHR 0xBC) \<and> \<not> str_isdigit (CHR 0xBC) \<and>
   CHR 0xBC \<noteq> CHR ''-'' \<and> CHR 0xBC \<noteq> CHR ''_'' \<and>
   map_sum id r_short_code
     (fst (post_shorten (example_body\<lparr>custom_alias := Some [CHR ''a'', CHR ''b'', CHR 0xBC]\<rparr>)
             example_request 100 (\<lambda>i. 0) example_db))
     = Inr [CHR ''a'', CHR ''b'', CHR 0xBC] \<and>
   log (snd (snd (post_shorten (example_body\<lparr>custom_alias := Some [CHR ''a'', CHR ''b'', CHR 0xBC]\<rparr>)
             example_request 100 (\<lambda>i. 0) example_db)))
     = [SelectURL [CHR ''a'', CHR ''b'', CHR 0xBC], InsertURL [CHR ''a'', CHR ''b'', CHR 0xBC]] \<and>
   map u_short_code
     (urls (snd (snd (post_shorten (example_body\<lparr>custom_alias := Some [CHR ''a'', CHR ''b'', CHR 0xBC]\<rparr>)
             example_request 100 (\<lambda>i. 0) example_db))))
     = [''abc'', ''old'', [CHR ''a'', CHR ''b'', CHR 0xBC]] \<and>
   fst (post_shorten (example_body\<lparr>custom_alias := Some ''ab''\<rparr>) example_request 100 (\<lambda>i. 0)
          example_db)
     \<noteq> Inl (HTTPException 400 ''Custom alias must be between 3 and 20 characters'')"
proof -
  have 1: "\<not> str_isalpha (CHR 0xBC)" "\<not> str_isdigit (CHR 0xBC)"
    by (simp_all add: str_isalpha_def str_isdigit_def ascii_letters_def ascii_lowercase_def
        ascii_uppercase_def digits_def)
  have v: "URLCreate_validate (example_body\<lparr>custom_alias := Some [CHR ''a'', CHR ''b'', CHR 0xBC]\<rparr>)
      = Inr (example_body\<lparr>custom_alias := Some [CHR ''a'', CHR ''b'', CHR 0xBC]\<rparr>)"
    by (simp add: URLCreate_validate_def check_length_def validate_custom_alias_def isalnum_def
        example_body_def ascii_letters_def ascii_lowercase_def ascii_uppercase_def digits_def)
  have u: "is_valid_url ''https://example.com/a''"
    using example_body_valid by (simp add: example_body_def)
  have c: "create_short_url (example_body\<lparr>custom_alias := Some [CHR ''a'', CHR ''b'', CHR 0xBC]\<rparr>)
        example_request 100 (\<lambda>i. 0) example_db
      = (Inr \<lparr>r_id = 3, r_original_url = ''https://example.com/a'',
              r_short_code = [CHR ''a'', CHR ''b'', CHR 0xBC],
              r_short_url = ''http://short.example/'' @ [CHR ''a'', CHR ''b'', CHR 0xBC], r_created_at = utc_now 100,
              r_expires_at = None, r_click_count = 0\<rparr>,
         (\<lambda>i. 0),
         example_db\<lparr>urls := urls example_db @
             [\<lparr>u_id = 3, u_original_url = ''https://example.com/a'',
               u_short_code = [CHR ''a'', CHR ''b'', CHR 0xBC], u_created_at = utc_now 100,
               u_expires_at = None, u_click_count = 0, u_last_checked = None\<rparr>],
           log := [SelectURL [CHR ''a'', CHR ''b'', CHR 0xBC], InsertURL [CHR ''a'', CHR ''b'', CHR 0xBC]]\<rparr>)"
    using u
    by (simp add: create_short_url_def choose_short_code_def query_url_first_def insert_url_def
        Let_def new_id_def rstrip_def example_body_def example_db_def example_request_def)
  have s: "fst (post_shorten (example_body\<lparr>custom_alias := Some ''ab''\<rparr>) example_request 100
        (\<lambda>i. 0) example_db)
      = Inl (RequestValidationError [(''custom_alias'', string_too_short)])"
    by (simp add: post_shorten_def URLCreate_validate_def check_length_def example_body_def)
  have p: "post_shorten (example_body\<lparr>custom_alias := Some [CHR ''a'', CHR ''b'', CHR 0xBC]\<rparr>)
        example_request 100 (\<lambda>i. 0) example_db
      = create_short_url (example_body\<lparr>custom_alias := Some [CHR ''a'', CHR ''b'', CHR 0xBC]\<rparr>)
        example_request 100 (\<lambda>i. 0) example_db"
    by (simp add: post_shorten_def v)
  show ?thesis
    unfolding p c s using 1 by (simp add: example_db_def)
qed

section \<open>The validator and the language of its pattern\<close>

text \<open>
  The matcher is correct for the language: the remainders \<open>ends r s\<close> are exactly the
  suffixes of \<open>s\<close> left by a prefix in \<open>lang r\<close>. Hence \<open>re_match\<close>, and with it
  \<open>is_valid_url\<close>, accepts a string if it is in the language of the pattern or is such a
  string followed by one line feed.
\<close>

lemma star_ends_self: "s \<in> set (star_ends f n s)"
  by (cases n) simp_all

lemma star_ends_sound:
  assumes f: "\<And>s t. t \<in> set (f s) \<Longrightarrow> \<exists>p. p \<in> L \<and> s = p @ t"
  shows "t \<in> set (star_ends f n s) \<Longrightarrow> \<exists>p. p \<in> star L \<and> s = p @ t"
proof (induction n arbitrary: s)
  case 0
  then have "s = [] @ t" by simp
  then show ?case using star_empty by blast
next
  case (Suc n)
  from Suc.prems consider "t = s" | m where "m \<in> set (f s)" "t \<in> set (star_ends f n m)"
    by auto
  then show ?case
  proof cases
    case 1
    then have "s = [] @ t" by simp
    then show ?thesis using star_empty by blast
  next
    case 2
    from f [OF 2(1)] obtain p where p: "p \<in> L" "s = p @ m" by blast
    from Suc.IH [OF 2(2)] obtain q where q: "q \<in> star L" "m = q @ t" by blast
    from p q have "p @ q \<in> star L" and "s = (p @ q) @ t" by (auto intro: star_more)
    then show ?thesis by blast
  qed
qed

lemma star_ends_complete:
  assumes f: "\<And>s t p. p \<in> L \<Longrightarrow> s = p @ t \<Longrightarrow> t \<in> set (f s)"
  shows "p \<in> star L \<Longrightarrow> length (p @ t) \<le> n \<Longrightarrow> t \<in> set (star_ends f n (p @ t))"
proof (induction arbitrary: n rule: star.induct)
  case star_empty
  show ?case using star_ends_self [of t f n] by simp
next
  case (star_more u v)
  show ?case
  proof (cases "u = []")
    case True
    with star_more show ?thesis by simp
  next
    case False
    with star_more.prems obtain m where n: "n = Suc m" by (cases n) auto
    have 1: "v @ t \<in> set (f (u @ v @ t))" by (rule f [OF star_more.hyps(1)]) simp
    have 2: "length (v @ t) < length (u @ v @ t)" using False by simp
    have 3: "t \<in> set (star_ends f m (v @ t))"
      using star_more.prems n False by (intro star_more.IH) (cases u, auto)
    from 1 2 3 show ?thesis unfolding n by (auto simp del: length_append)
  qed
qed

lemma ends_iff: "t \<in> set (ends r s) \<longleftrightarrow> (\<exists>p. p \<in> lang r \<and> s = p @ t)"
proof (induction r arbitrary: s t)
  case Eps
  show ?case by auto
next
  case (Sym x)
  show ?case by (cases s) auto
next
  case (Alt r1 r2)
  then show ?case by auto
next
  case (Seq r1 r2)
  show ?case
  proof
    assume "t \<in> set (ends (Seq r1 r2) s)"
    then obtain m where "m \<in> set (ends r1 s)" "t \<in> set (ends r2 m)" by auto
    with Seq obtain p q where "p \<in> lang r1" "s = p @ m" "q \<in> lang r2" "m = q @ t" by blast
    then have "p @ q \<in> lang (Seq r1 r2)" "s = (p @ q) @ t" by (auto simp: conc_def)
    then show "\<exists>p. p \<in> lang (Seq r1 r2) \<and> s = p @ t" by blast
  next
    assume "\<exists>p. p \<in> lang (Seq r1 r2) \<and> s = p @ t"
    then obtain p q where pq: "p \<in> lang r1" "q \<in> lang r2" "s = p @ q @ t"
      by (auto simp: conc_def)
    then have "q @ t \<in> set (ends r1 s)" using Seq.IH(1) by blast
    moreover have "t \<in> set (ends r2 (q @ t))" using Seq.IH(2) pq(2) by blast
    ultimately show "t \<in> set (ends (Seq r1 r2) s)" by auto
  qed
next
  case (Star r)
  show ?case
  proof
    assume "t \<in> set (ends (Star r) s)"
    then have "t \<in> set (star_ends (ends r) (length s) s)" by simp
    then have "\<exists>p. p \<in> star (lang r) \<and> s = p @ t"
      by (rule star_ends_sound [rotated]) (use Star in blast)
    then show "\<exists>p. p \<in> lang (Star r) \<and> s = p @ t" by simp
  next
    assume "\<exists>p. p \<in> lang (Star r) \<and> s = p @ t"
    then obtain p where p: "p \<in> star (lang r)" "s = p @ t" by auto
    have "t \<in> set (star_ends (ends r) (length (p @ t)) (p @ t))"
      by (rule star_ends_complete [OF _ p(1)]) (use Star in blast, simp)
    with p show "t \<in> set (ends (Star r) s)" by simp
  qed
qed

lemma re_match_iff:
  "re_match r s \<longleftrightarrow> s \<in> lang r \<or> (\<exists>t. t \<in> lang r \<and> s = t @ [CHR 0x0A])"
proof -
  have "re_match r s \<longleftrightarrow> [] \<in> set (ends r s) \<or> [CHR 0x0A] \<in> set (ends r s)"
    by (auto simp: re_match_def list_ex_iff)
  then show ?thesis by (simp add: ends_iff)
qed

lemma is_valid_url_iff:
  "is_valid_url url \<longleftrightarrow>
     (url \<in> lang url_pattern \<or> (\<exists>t. t \<in> lang url_pattern \<and> url = t @ [CHR 0x0A])) \<and>
     (\<exists>scheme netloc. urlparse url = Some (scheme, netloc) \<and> scheme \<noteq> [] \<and> netloc \<noteq> [])"
  by (auto simp: is_valid_url_def re_match_iff split: option.splits)

lemma lang_iff_ends: "s \<in> lang r \<longleftrightarrow> [] \<in> set (ends r s)"
  by (simp add: ends_iff)

text \<open>
  Claim C6, evaluated at the URL \<open>http://a.bc\<close> followed by a line feed: the string is
  not in the language of the pattern (after the host \<open>a.bc\<close> there is neither a port nor
  a path or query), while the same string without the line feed is; \<open>is_valid_url\<close>
  accepts it all the same, since \<open>$\<close> matches before a final line feed and the parse
  yields the scheme \<open>http\<close> and the host \<open>a.bc\<close>.
\<close>

theorem trailing_newline_accepted:
  "is_valid_url (''http://a.bc'' @ [CHR 0x0A]) \<and>
   ''http://a.bc'' @ [CHR 0x0A] \<notin> lang url_pattern \<and>
   ''http://a.bc'' \<in> lang url_pattern"
proof -
  have 1: "is_valid_url (''http://a.bc'' @ [CHR 0x0A])" by code_simp
  have 2: "[] \<notin> set (ends url_pattern (''http://a.bc'' @ [CHR 0x0A]))" by code_simp
  have 3: "[] \<in> set (ends url_pattern ''http://a.bc'')" by code_simp
  from 1 2 3 show ?thesis by (simp add: lang_iff_ends)
qed

end
